theory Spec2Isabelle
  imports Main "HOL-Library.Word"
begin

section \<open>Data model\<close>

text \<open>
  The kernels of \<^verbatim>\<open>cuda_cross_correlation.cuh\<close> are templates over the sample type
  \<^verbatim>\<open>T\<close>; every instantiation in the repository (\<^verbatim>\<open>benchmark<uint8_t>\<close>,
  \<^verbatim>\<open>crossCorrelation<uint8_t>\<close>) uses \<^verbatim>\<open>uint8_t\<close>, modelled as an 8-bit word.
  With \<^verbatim>\<open>uint8_t\<close> operands the statement \<^verbatim>\<open>tmp += a * b\<close> computes in \<^verbatim>\<open>int\<close> and
  truncates the result to 8 bits, which is the word operation \<open>tmp + a * b\<close>.

  \<^verbatim>\<open>std::size_t\<close> values are natural numbers. Additions and multiplications of
  indices stay far below \<open>2 ^ 64\<close> for buffers that exist in memory; the one operation
  that can leave the naturals, unsigned subtraction, is written out with its wrap-around
  (\<open>sz_sub\<close>, for operands below \<open>2 ^ 64\<close>).

  The components of \<^verbatim>\<open>blockDim\<close>, \<^verbatim>\<open>blockIdx\<close> and \<^verbatim>\<open>threadIdx\<close> are \<^verbatim>\<open>unsigned int\<close>, so
  \<^verbatim>\<open>blockDim.y * blockIdx.y + threadIdx.y\<close> is computed modulo \<open>2 ^ 32\<close> before it is
  converted to \<^verbatim>\<open>std::size_t\<close>.
\<close>

type_synonym u8 = "8 word"

definition sz_sub :: "nat \<Rightarrow> nat \<Rightarrow> nat" where
  "sz_sub a b = (if b \<le> a then a - b else a + 2 ^ 64 - b)"

text \<open>The \<^verbatim>\<open>x\<close> and \<^verbatim>\<open>y\<close> components of a \<^verbatim>\<open>dim3\<close>; every \<^verbatim>\<open>z\<close> in the repository is 1.\<close>

record dim3 =
  x :: nat
  y :: nat

text \<open>
  A read through a device pointer. An index outside the buffer is undefined behaviour
  in the source; here it is the value \<open>None\<close>.
\<close>

definition rd :: "'a list \<Rightarrow> nat \<Rightarrow> 'a option" where
  "rd buf n = (if n < length buf then Some (buf ! n) else None)"

text \<open>What one device thread does to the destination buffer.\<close>

datatype thread_result =
    NoWrite
  | Write nat u8
  | Fault

text \<open>
  A \<^verbatim>\<open>for\<close> loop over the successive values of its index, with a body that may
  hit an undefined memory access: the loop stops there.
\<close>

fun for_loop :: "'i list \<Rightarrow> ('s \<Rightarrow> 'i \<Rightarrow> 's option) \<Rightarrow> 's \<Rightarrow> 's option" where
  "for_loop [] body s = Some s"
| "for_loop (i # is) body s =
     (case body s i of None \<Rightarrow> None | Some s' \<Rightarrow> for_loop is body s')"

section \<open>The direct kernel\<close>

text \<open>
  \<^verbatim>\<open>crossCorrelationKernel\<close>, one thread. The innermost loop
  \<^verbatim>\<open>for (k = 0, l = sCol - shift; k < kernel_size, l <= sCol + shift; k++, l++)\<close>
  has a comma expression as its condition, so only \<^verbatim>\<open>l <= sCol + shift\<close> decides;
  \<^verbatim>\<open>k\<close> is \<^verbatim>\<open>l - (sCol - shift)\<close> throughout.
\<close>

definition mac_step :: "u8 list \<Rightarrow> u8 list \<Rightarrow> nat \<Rightarrow> nat \<Rightarrow> nat \<Rightarrow> nat \<Rightarrow> nat \<Rightarrow> u8 \<Rightarrow> nat \<Rightarrow> u8 option" where
  "mac_step d_src1 d_src2 matrix_src_cols shift_on_axis sCol i j tmp l =
     (let k = l - sz_sub sCol shift_on_axis in
      case rd d_src1 (j * matrix_src_cols + k + sz_sub i shift_on_axis) of
        None \<Rightarrow> None
      | Some a \<Rightarrow>
          (case rd d_src2 (j * matrix_src_cols + l) of
             None \<Rightarrow> None
           | Some b \<Rightarrow> Some (tmp + a * b)))"

definition window_score :: "u8 list \<Rightarrow> u8 list \<Rightarrow> nat \<Rightarrow> nat \<Rightarrow> nat \<Rightarrow> nat \<Rightarrow> nat \<Rightarrow> u8 option" where
  "window_score d_src1 d_src2 matrix_src_cols shift_on_axis sRow sCol i =
     for_loop [sz_sub sRow shift_on_axis ..< Suc (sRow + shift_on_axis)]
       (\<lambda>tmp j. for_loop [sz_sub sCol shift_on_axis ..< Suc (sCol + shift_on_axis)]
                  (mac_step d_src1 d_src2 matrix_src_cols shift_on_axis sCol i j) tmp)
       0"

definition argmax_step :: "(nat \<Rightarrow> u8 option) \<Rightarrow> u8 \<times> nat \<Rightarrow> nat \<Rightarrow> (u8 \<times> nat) option" where
  "argmax_step score st i =
     (case score i of
        None \<Rightarrow> None
      | Some tmp \<Rightarrow> Some (if tmp \<ge> fst st then (tmp, sz_sub i 1) else st))"

definition crossCorrelationKernel ::
  "u8 list \<Rightarrow> u8 list \<Rightarrow> nat \<Rightarrow> nat \<Rightarrow> nat \<Rightarrow> dim3 \<Rightarrow> dim3 \<Rightarrow> dim3 \<Rightarrow> thread_result" where
  "crossCorrelationKernel d_src1 d_src2 kernel_size matrix_src_rows matrix_src_cols
       blockDim blockIdx threadIdx =
     (let shift_on_axis = kernel_size div 2;
          sRow = (y blockDim * y blockIdx + y threadIdx) mod 2 ^ 32 + shift_on_axis;
          sCol = (x blockDim * x blockIdx + x threadIdx) mod 2 ^ 32 + shift_on_axis;
          dRow = (y blockDim * y blockIdx + y threadIdx) mod 2 ^ 32;
          dCol = (x blockDim * x blockIdx + x threadIdx) mod 2 ^ 32;
          matrix_dest_cols = sz_sub matrix_src_cols (sz_sub kernel_size 1);
          matrix_dest_rows = sz_sub matrix_src_rows (sz_sub kernel_size 1);
          dPos = dRow * matrix_dest_cols + dCol
      in if dRow < matrix_dest_rows \<and> dCol < matrix_dest_cols then
           (case for_loop [shift_on_axis ..< sz_sub matrix_src_cols shift_on_axis]
                   (argmax_step (window_score d_src1 d_src2 matrix_src_cols shift_on_axis sRow sCol))
                   (0, 0) of
              None \<Rightarrow> Fault
            | Some (mx, max_idx) \<Rightarrow> Write dPos (of_nat max_idx))
         else NoWrite)"


section \<open>Single-precision arithmetic of the host code\<close>

text \<open>
  The orchestrators keep the destination extents in \<^verbatim>\<open>float\<close> variables and compute the
  buffer size and the grid with \<^verbatim>\<open>float\<close> operations. A non-negative finite binary32
  value is represented by a fraction (numerator, denominator); every operation rounds
  its exact result to the nearest value with a 24-bit significand, ties to even.
  The values that occur are quotients and products of \<^verbatim>\<open>size_t\<close> numbers, far inside the
  exponent range of binary32, so overflow and subnormals are not modelled.
\<close>

type_synonym f32 = "nat \<times> nat"

text \<open>\<open>n / d\<close> rounded to the nearest integer, ties to even.\<close>

definition rne :: "nat \<Rightarrow> nat \<Rightarrow> nat" where
  "rne n d = (let q = n div d; r = n mod d in
               if 2 * r < d then q else if d < 2 * r then q + 1
               else if even q then q else q + 1)"

text \<open>
  Normalisation of the significand. \<open>norm_up p 1 q\<close> doubles \<open>p\<close> until
  \<open>2 ^ 23 \<le> p / q\<close> and returns the scaled numerator with the scale;
  \<open>norm_down p q 1\<close> doubles \<open>q\<close> until \<open>p / q < 2 ^ 24\<close> and returns the scaled
  denominator with the scale. \<open>8388608\<close> is \<open>2 ^ 23\<close> and \<open>16777216\<close> is \<open>2 ^ 24\<close>.
\<close>

function norm_up :: "nat \<Rightarrow> nat \<Rightarrow> nat \<Rightarrow> nat \<times> nat" where
  "norm_up p d q = (if 0 < p \<and> p < 8388608 * q then norm_up (2 * p) (2 * d) q else (p, d))"
  by pat_completeness auto
termination
  by (relation "measure (\<lambda>(p, d, q). 8388608 * q - p)") auto

function norm_down :: "nat \<Rightarrow> nat \<Rightarrow> nat \<Rightarrow> nat \<times> nat" where
  "norm_down p q s = (if 0 < q \<and> 16777216 * q \<le> p then norm_down p (2 * q) (2 * s) else (q, s))"
  by pat_completeness auto
termination
  by (relation "measure (\<lambda>(p, q, s). Suc p - 16777216 * q)") auto

declare norm_up.simps [simp del] norm_down.simps [simp del]

text \<open>The binary32 value nearest to \<open>p / q\<close>.\<close>

definition f32_round_frac :: "nat \<Rightarrow> nat \<Rightarrow> f32" where
  "f32_round_frac p q =
     (if p < 8388608 * q then
        (case norm_up p 1 q of (p', d) \<Rightarrow> (rne p' q, d))
      else
        (case norm_down p q 1 of (q', s) \<Rightarrow> (rne p q' * s, 1)))"

definition f32_of_nat :: "nat \<Rightarrow> f32" where
  "f32_of_nat n = f32_round_frac n 1"

definition f32_mul :: "f32 \<Rightarrow> f32 \<Rightarrow> f32" where
  "f32_mul a b = f32_round_frac (fst a * fst b) (snd a * snd b)"

definition f32_div :: "f32 \<Rightarrow> f32 \<Rightarrow> f32" where
  "f32_div a b = f32_round_frac (fst a * snd b) (snd a * fst b)"

definition f32_add :: "f32 \<Rightarrow> f32 \<Rightarrow> f32" where
  "f32_add a b = f32_round_frac (fst a * snd b + fst b * snd a) (snd a * snd b)"

text \<open>\<^verbatim>\<open>ceil\<close>, and the truncating conversion to an integer type.\<close>

definition f32_ceil :: "f32 \<Rightarrow> nat" where
  "f32_ceil a = (fst a + snd a - 1) div snd a"

definition f32_trunc :: "f32 \<Rightarrow> nat" where
  "f32_trunc a = fst a div snd a"


section \<open>Kernel launches\<close>

text \<open>
  A launch runs the kernel once per thread of every block of the grid. The threads of
  the source run concurrently; here their stores reach the destination buffer one
  after the other, blocks and threads in row-major order. The device buffer obtained
  from \<^verbatim>\<open>cudaMalloc\<close> is not initialised: a cell is \<open>None\<close> until a thread stores to it.
  A store outside the buffer, like a read outside one, is undefined behaviour.
\<close>

definition block_threads :: "dim3 \<Rightarrow> dim3 list" where
  "block_threads blockDim =
     concat (map (\<lambda>ty. map (\<lambda>tx. \<lparr>x = tx, y = ty\<rparr>) [0..<x blockDim]) [0..<y blockDim])"

definition grid_blocks :: "dim3 \<Rightarrow> dim3 list" where
  "grid_blocks gridDim =
     concat (map (\<lambda>by. map (\<lambda>bx. \<lparr>x = bx, y = by\<rparr>) [0..<x gridDim]) [0..<y gridDim])"

definition store :: "u8 option list \<Rightarrow> thread_result \<Rightarrow> u8 option list option" where
  "store d_dest res =
     (case res of
        NoWrite \<Rightarrow> Some d_dest
      | Write dPos v \<Rightarrow> if dPos < length d_dest then Some (d_dest[dPos := Some v]) else None
      | Fault \<Rightarrow> None)"

definition launch :: "(dim3 \<Rightarrow> thread_result list) \<Rightarrow> dim3 \<Rightarrow> u8 option list \<Rightarrow> u8 option list option" where
  "launch block_results gridDim d_dest =
     for_loop (concat (map block_results (grid_blocks gridDim))) store d_dest"

text \<open>The direct kernel on the threads of one block.\<close>

definition crossCorrelationKernel_block ::
  "u8 list \<Rightarrow> u8 list \<Rightarrow> nat \<Rightarrow> nat \<Rightarrow> nat \<Rightarrow> dim3 \<Rightarrow> dim3 \<Rightarrow> thread_result list" where
  "crossCorrelationKernel_block d_src1 d_src2 kernel_size matrix_src_rows matrix_src_cols blockDim blockIdx =
     map (crossCorrelationKernel d_src1 d_src2 kernel_size matrix_src_rows matrix_src_cols blockDim blockIdx)
       (block_threads blockDim)"

section \<open>The shared-memory kernel\<close>

text \<open>
  \<^verbatim>\<open>sharedMemoryCrossCorrelationKernel\<close>. The dynamic shared array \<^verbatim>\<open>d_shmem\<close> of a block
  has as many elements as the launch asks for and is not initialised; \<^verbatim>\<open>d_shmem1\<close> is
  its start and \<^verbatim>\<open>d_shmem2\<close> starts at offset
  \<^verbatim>\<open>(blockDim.y + 2 * (kernel_size / 2)) * matrix_src_cols\<close>.

  Every staging loop of the kernel has the header
  \<^verbatim>\<open>for (i = 0; i < int((float(matrix_src_cols - 1) / blockDim.x) + 1) && ((i * blockDim.x) + threadIdx.x) < matrix_src_cols; i++)\<close>.
  Block extents are at least 1 in a launch, so an index that passes the second test
  is below \<^verbatim>\<open>matrix_src_cols\<close>, and the loop runs through the longest prefix of
  \<open>0, 1, \<dots>\<close> that passes both tests.
\<close>

definition stage_cols :: "nat \<Rightarrow> nat \<Rightarrow> nat \<Rightarrow> nat list" where
  "stage_cols matrix_src_cols blockDim_x threadIdx_x =
     takeWhile
       (\<lambda>i. i < f32_trunc (f32_add (f32_div (f32_of_nat (sz_sub matrix_src_cols 1)) (f32_of_nat blockDim_x))
                                    (f32_of_nat 1))
            \<and> i * blockDim_x + threadIdx_x < matrix_src_cols)
       [0..<matrix_src_cols]"

text \<open>
  The copies one thread issues before the barrier, in program order, each as the pair
  (offset into \<^verbatim>\<open>d_shmem1\<close> and \<^verbatim>\<open>d_shmem2\<close>, offset into \<^verbatim>\<open>d_src1\<close> and \<^verbatim>\<open>d_src2\<close>): every
  loop body copies from \<^verbatim>\<open>d_src1\<close> and from \<^verbatim>\<open>d_src2\<close> with the same two offsets.
  In the loop \<^verbatim>\<open>for (j = 0, k = (blockDim.x - 1) - (kernel_size / 2); j < kernel_size / 2 && k <= kernel_size / 2; j++, k++)\<close>
  the start value of \<^verbatim>\<open>k\<close> is an unsigned difference.
\<close>

definition stage_ops :: "nat \<Rightarrow> nat \<Rightarrow> dim3 \<Rightarrow> dim3 \<Rightarrow> dim3 \<Rightarrow> (nat \<times> nat) list" where
  "stage_ops kernel_size matrix_src_cols blockDim blockIdx threadIdx =
     (let sRow = (y blockDim * y blockIdx + y threadIdx) mod 2 ^ 32;
          is = stage_cols matrix_src_cols (x blockDim) (x threadIdx);
          col = (\<lambda>i. i * x blockDim + x threadIdx)
      in if x blockIdx = 0 then
           map (\<lambda>i. (col i + y threadIdx * matrix_src_cols, col i + sRow * matrix_src_cols)) is
           @ (if x threadIdx = y blockDim - 1 then
                concat (map (\<lambda>j. map (\<lambda>i. (col i + y threadIdx * matrix_src_cols + j * matrix_src_cols,
                                              col i + sRow * matrix_src_cols + j * matrix_src_cols)) is)
                          [1..<Suc (kernel_size div 2)])
              else [])
         else if x blockIdx = x blockDim - 1 then
           (if x threadIdx = 0 then
              concat (map (\<lambda>(j, k). map (\<lambda>i. (col i + y threadIdx * matrix_src_cols,
                                                 col i + sRow * matrix_src_cols + k * matrix_src_cols)) is)
                        (takeWhile (\<lambda>(j, k). j < kernel_size div 2 \<and> k \<le> kernel_size div 2)
                           (map (\<lambda>j. (j, sz_sub (x blockDim - 1) (kernel_size div 2) + j))
                              [0..<kernel_size div 2])))
            else [])
           @ map (\<lambda>i. (col i + y threadIdx * matrix_src_cols + (kernel_size div 2) * matrix_src_cols,
                        col i + sRow * matrix_src_cols + (kernel_size div 2 + 1) * matrix_src_cols)) is
         else [])"

definition stage_copy :: "u8 list \<Rightarrow> u8 list \<Rightarrow> nat \<Rightarrow> u8 option list \<Rightarrow> nat \<times> nat \<Rightarrow> u8 option list option" where
  "stage_copy d_src1 d_src2 shmem2_offset d_shmem op =
     (case rd d_src1 (snd op) of
        None \<Rightarrow> None
      | Some a \<Rightarrow>
          if fst op < length d_shmem then
            (case rd d_src2 (snd op) of
               None \<Rightarrow> None
             | Some b \<Rightarrow>
                 if shmem2_offset + fst op < length d_shmem
                 then Some (d_shmem[fst op := Some a, shmem2_offset + fst op := Some b])
                 else None)
          else None)"

text \<open>
  The staging phase of a block, up to \<^verbatim>\<open>__syncthreads()\<close>: the copies of its threads, one
  thread after the other. Where two threads of the source copy different values to the
  same shared cell they race; the model then keeps the value of the later thread in
  this order.
\<close>

definition stage_block ::
  "u8 list \<Rightarrow> u8 list \<Rightarrow> nat \<Rightarrow> nat \<Rightarrow> nat \<Rightarrow> dim3 \<Rightarrow> dim3 \<Rightarrow> u8 option list option" where
  "stage_block d_src1 d_src2 kernel_size matrix_src_cols shmem_len blockDim blockIdx =
     for_loop
       (concat (map (stage_ops kernel_size matrix_src_cols blockDim blockIdx) (block_threads blockDim)))
       (stage_copy d_src1 d_src2 ((y blockDim + 2 * (kernel_size div 2)) * matrix_src_cols))
       (replicate shmem_len None)"

text \<open>
  After the barrier, thread (0, 0) of block (1, 0) prints
  \<^verbatim>\<open>blockDim.y + 2 * (kernel_size / 2)\<close> rows of \<^verbatim>\<open>matrix_src_cols\<close> elements of \<^verbatim>\<open>d_shmem1\<close>
  and then of \<^verbatim>\<open>d_shmem2\<close>. The printed text is not part of the model; a read outside
  the shared array is undefined behaviour, and \<open>shmem_dump\<close> is \<open>None\<close> then. A cell
  inside the array that no thread has written prints an indeterminate value.
\<close>

definition shmem_dump :: "u8 option list \<Rightarrow> nat \<Rightarrow> nat \<Rightarrow> nat \<Rightarrow> nat \<Rightarrow> unit option" where
  "shmem_dump d_shmem shmem2_offset kernel_size matrix_src_cols blockDim_y =
     (case for_loop [0 ..< blockDim_y + 2 * (kernel_size div 2)]
             (\<lambda>u i. for_loop [0 ..< matrix_src_cols]
                      (\<lambda>u j. case rd d_shmem (i * matrix_src_cols + j) of
                                None \<Rightarrow> None | Some v \<Rightarrow> Some u) u) () of
        None \<Rightarrow> None
      | Some u \<Rightarrow>
          for_loop [0 ..< blockDim_y + 2 * (kernel_size div 2)]
            (\<lambda>u i. for_loop [0 ..< matrix_src_cols]
                     (\<lambda>u j. case rd d_shmem (shmem2_offset + (i * matrix_src_cols + j)) of
                               None \<Rightarrow> None | Some v \<Rightarrow> Some u) u) u)"

text \<open>
  The search phase of one thread, after the barrier and the dump. Reading a shared
  cell that no thread has written yields an indeterminate value: \<open>None\<close>.
\<close>

definition shmem_mac_step :: "u8 option list \<Rightarrow> nat \<Rightarrow> nat \<Rightarrow> nat \<Rightarrow> nat \<Rightarrow> nat \<Rightarrow> nat \<Rightarrow> u8 \<Rightarrow> nat \<Rightarrow> u8 option" where
  "shmem_mac_step d_shmem shmem2_offset matrix_src_cols shift_on_axis sCol i j tmp l =
     (let k = l - sz_sub sCol shift_on_axis in
      case rd d_shmem (j * matrix_src_cols + k + sz_sub i shift_on_axis) of
        Some (Some a) \<Rightarrow>
          (case rd d_shmem (shmem2_offset + (j * matrix_src_cols + l)) of
             Some (Some b) \<Rightarrow> Some (tmp + a * b)
           | _ \<Rightarrow> None)
      | _ \<Rightarrow> None)"

definition shmem_window_score :: "u8 option list \<Rightarrow> nat \<Rightarrow> nat \<Rightarrow> nat \<Rightarrow> nat \<Rightarrow> nat \<Rightarrow> nat \<Rightarrow> u8 option" where
  "shmem_window_score d_shmem shmem2_offset matrix_src_cols shift_on_axis blockDim_y sCol i =
     for_loop [0 ..< blockDim_y]
       (\<lambda>tmp j. for_loop [sz_sub sCol shift_on_axis ..< Suc (sCol + shift_on_axis)]
                  (shmem_mac_step d_shmem shmem2_offset matrix_src_cols shift_on_axis sCol i j) tmp)
       0"

definition sharedMemoryCrossCorrelationKernel_search ::
  "u8 option list \<Rightarrow> nat \<Rightarrow> nat \<Rightarrow> nat \<Rightarrow> dim3 \<Rightarrow> dim3 \<Rightarrow> dim3 \<Rightarrow> thread_result" where
  "sharedMemoryCrossCorrelationKernel_search d_shmem kernel_size matrix_src_rows matrix_src_cols
       blockDim blockIdx threadIdx =
     (let sRow = (y blockDim * y blockIdx + y threadIdx) mod 2 ^ 32;
          sCol = (x blockDim * x blockIdx + x threadIdx) mod 2 ^ 32;
          shmem2_offset = (y blockDim + 2 * (kernel_size div 2)) * matrix_src_cols;
          shift_on_axis = kernel_size div 2;
          dRow = sz_sub sRow shift_on_axis;
          dCol = sz_sub sCol shift_on_axis;
          matrix_dest_cols = sz_sub matrix_src_cols (sz_sub kernel_size 1);
          matrix_dest_rows = sz_sub matrix_src_rows (sz_sub kernel_size 1);
          dPos = dRow * matrix_dest_cols + dCol
      in if x blockIdx = 1 \<and> y blockIdx = 0 \<and> y threadIdx = 0 \<and> x threadIdx = 0
            \<and> shmem_dump d_shmem shmem2_offset kernel_size matrix_src_cols (y blockDim) = None then
           Fault
         else if sRow \<le> matrix_dest_rows \<and> sCol \<le> matrix_dest_cols
            \<and> sRow \<ge> shift_on_axis \<and> sCol \<ge> shift_on_axis then
           (case for_loop [shift_on_axis ..< sz_sub matrix_src_cols shift_on_axis]
                   (argmax_step (shmem_window_score d_shmem shmem2_offset matrix_src_cols shift_on_axis
                                   (y blockDim) sCol))
                   (0, 0) of
              None \<Rightarrow> Fault
            | Some (mx, max_idx) \<Rightarrow> Write dPos (of_nat max_idx))
         else NoWrite)"

text \<open>The kernel on the threads of one block: staging, barrier, search.\<close>

definition sharedMemoryCrossCorrelationKernel ::
  "u8 list \<Rightarrow> u8 list \<Rightarrow> nat \<Rightarrow> nat \<Rightarrow> nat \<Rightarrow> nat \<Rightarrow> dim3 \<Rightarrow> dim3 \<Rightarrow> thread_result list" where
  "sharedMemoryCrossCorrelationKernel d_src1 d_src2 kernel_size matrix_src_rows matrix_src_cols
       shmem_len blockDim blockIdx =
     (case stage_block d_src1 d_src2 kernel_size matrix_src_cols shmem_len blockDim blockIdx of
        None \<Rightarrow> [Fault]
      | Some d_shmem \<Rightarrow>
          map (sharedMemoryCrossCorrelationKernel_search d_shmem kernel_size matrix_src_rows matrix_src_cols
                 blockDim blockIdx)
            (block_threads blockDim))"


section \<open>The host orchestrators\<close>

text \<open>
  A CUDA runtime call returns \<^verbatim>\<open>cudaSuccess\<close> or an error code. What the runtime answers
  to each call of an orchestrator is a parameter of the model.
\<close>

datatype cudaError = cudaSuccess | cudaErrorCode nat

datatype api_call =
    MallocSrc1 | MemcpySrc1 | MallocSrc2 | MemcpySrc2 | MallocDest
  | KernelLaunch | DeviceSynchronize | MemcpyDest
  | FreeSrc1 | FreeSrc2 | FreeDest

text \<open>
  \<^verbatim>\<open>checkCudaError\<close> prints one diagnostic to \<^verbatim>\<open>std::cerr\<close> and calls
  \<^verbatim>\<open>exit(EXIT_FAILURE)\<close> when the status is not \<^verbatim>\<open>cudaSuccess\<close>. The diagnostic carries
  the function name passed in, the text \<^verbatim>\<open>cudaGetErrorString(err)\<close> (kept here as the
  status itself), the constant \<^verbatim>\<open>__FILE__\<close> and the line passed in. The result \<open>Some d\<close>
  is the exit with diagnostic \<open>d\<close>, \<open>None\<close> the normal return.
\<close>

record diagnostic =
  func :: string
  error :: cudaError
  line :: nat

datatype failure = ExitFailure diagnostic | UndefinedBehaviour

definition checkCudaError :: "cudaError \<Rightarrow> string \<Rightarrow> nat \<Rightarrow> diagnostic option" where
  "checkCudaError err fn lineno =
     (if err \<noteq> cudaSuccess then Some \<lparr>func = fn, error = err, line = lineno\<rparr> else None)"

text \<open>\<^verbatim>\<open>sizeof(T)\<close> for \<^verbatim>\<open>uint8_t\<close>.\<close>

definition sizeof_T :: nat where
  "sizeof_T = 1"

text \<open>
  The four orchestrators start with the same declarations:
  \<^verbatim>\<open>float dest_rows = matrix_rows - (kernel_size - 1);\<close>,
  \<^verbatim>\<open>float dest_cols = matrix_cols - (kernel_size - 1);\<close> and
  \<^verbatim>\<open>std::size_t dest_size{dest_rows * dest_cols * sizeof(T)};\<close>.
\<close>

definition host_dest_rows :: "nat \<Rightarrow> nat \<Rightarrow> f32" where
  "host_dest_rows kernel_size matrix_rows = f32_of_nat (sz_sub matrix_rows (sz_sub kernel_size 1))"

definition host_dest_cols :: "nat \<Rightarrow> nat \<Rightarrow> f32" where
  "host_dest_cols kernel_size matrix_cols = f32_of_nat (sz_sub matrix_cols (sz_sub kernel_size 1))"

definition host_dest_size :: "nat \<Rightarrow> nat \<Rightarrow> nat \<Rightarrow> nat" where
  "host_dest_size kernel_size matrix_rows matrix_cols =
     f32_trunc (f32_mul (f32_mul (host_dest_rows kernel_size matrix_rows)
                                 (host_dest_cols kernel_size matrix_cols))
                        (f32_of_nat sizeof_T))"

text \<open>
  The \<^verbatim>\<open>dimGrid\<close> of each orchestrator; all four use \<^verbatim>\<open>dimBlock(block_dim_y, block_dim_x, 1)\<close>.
  The quotient is a \<^verbatim>\<open>float\<close> divided by a \<^verbatim>\<open>size_t\<close> converted to \<^verbatim>\<open>float\<close>; \<^verbatim>\<open>ceil\<close> of it is
  exact, and so is its conversion to the \<^verbatim>\<open>unsigned int\<close> of \<^verbatim>\<open>dim3\<close> for extents that fit.
\<close>

definition crossCorrelation_dimGrid :: "nat \<Rightarrow> nat \<Rightarrow> nat \<Rightarrow> nat \<Rightarrow> nat \<Rightarrow> dim3" where
  "crossCorrelation_dimGrid kernel_size matrix_rows matrix_cols block_dim_x block_dim_y =
     \<lparr>x = f32_ceil (f32_div (host_dest_cols kernel_size matrix_cols) (f32_of_nat block_dim_y)),
      y = f32_ceil (f32_div (host_dest_rows kernel_size matrix_rows) (f32_of_nat block_dim_x))\<rparr>"

definition crossCorrelationTimeWithAllocation_dimGrid :: "nat \<Rightarrow> nat \<Rightarrow> nat \<Rightarrow> nat \<Rightarrow> nat \<Rightarrow> dim3" where
  "crossCorrelationTimeWithAllocation_dimGrid kernel_size matrix_rows matrix_cols dim_block_x dim_block_y =
     \<lparr>x = f32_ceil (f32_div (host_dest_cols kernel_size matrix_cols) (f32_of_nat dim_block_y)),
      y = f32_ceil (f32_div (host_dest_rows kernel_size matrix_rows) (f32_of_nat dim_block_x))\<rparr>"

definition crossCorrelationTimeWithoutAllocation_dimGrid :: "nat \<Rightarrow> nat \<Rightarrow> nat \<Rightarrow> nat \<Rightarrow> nat \<Rightarrow> dim3" where
  "crossCorrelationTimeWithoutAllocation_dimGrid kernel_size matrix_rows matrix_cols dim_block_x dim_block_y =
     \<lparr>x = f32_ceil (f32_div (host_dest_cols kernel_size matrix_cols) (f32_of_nat dim_block_y)),
      y = f32_ceil (f32_div (host_dest_rows kernel_size matrix_rows) (f32_of_nat dim_block_x))\<rparr>"

definition sharedMemoryCrossCorrelation_dimGrid :: "nat \<Rightarrow> nat \<Rightarrow> nat \<Rightarrow> nat \<Rightarrow> nat \<Rightarrow> dim3" where
  "sharedMemoryCrossCorrelation_dimGrid kernel_size matrix_rows matrix_cols block_dim_x block_dim_y =
     \<lparr>x = f32_ceil (f32_div (f32_of_nat matrix_cols) (f32_of_nat block_dim_y)),
      y = f32_ceil (f32_div (f32_of_nat matrix_rows) (f32_of_nat block_dim_x))\<rparr>"

text \<open>
  \<^verbatim>\<open>crossCorrelation\<close>. The result is the content copied back into \<^verbatim>\<open>h_dest\<close>, or the
  exit of the process. The numbers are the values of \<^verbatim>\<open>__LINE__\<close> at the six calls of
  \<^verbatim>\<open>checkCudaError\<close> in \<^verbatim>\<open>cuda_cross_correlation.cuh\<close>. The kernel launch is followed by
  no status query, and the statuses of \<^verbatim>\<open>cudaDeviceSynchronize\<close> and of the three
  \<^verbatim>\<open>cudaFree\<close> calls are discarded: the model consults the runtime at \<open>KernelLaunch\<close>
  only to know whether the kernel ran.
\<close>

definition crossCorrelation ::
  "(api_call \<Rightarrow> cudaError) \<Rightarrow> u8 list \<Rightarrow> u8 list \<Rightarrow> nat \<Rightarrow> nat \<Rightarrow> nat \<Rightarrow> nat \<Rightarrow> nat
     \<Rightarrow> failure + u8 option list" where
  "crossCorrelation rt h_src1 h_src2 kernel_size matrix_rows matrix_cols block_dim_x block_dim_y =
     (let src_size = matrix_rows * matrix_cols * sizeof_T;
          dest_size = host_dest_size kernel_size matrix_rows matrix_cols;
          dimGrid = crossCorrelation_dimGrid kernel_size matrix_rows matrix_cols block_dim_x block_dim_y;
          dimBlock = \<lparr>x = block_dim_y, y = block_dim_x\<rparr>
      in case checkCudaError (rt MallocSrc1) ''cudaMalloc'' 165 of Some d \<Rightarrow> Inl (ExitFailure d) | None \<Rightarrow>
        (case checkCudaError (rt MemcpySrc1) ''cudaMemcpy'' 168 of Some d \<Rightarrow> Inl (ExitFailure d) | None \<Rightarrow>
        (case checkCudaError (rt MallocSrc2) ''cudaMalloc'' 171 of Some d \<Rightarrow> Inl (ExitFailure d) | None \<Rightarrow>
        (case checkCudaError (rt MemcpySrc2) ''cudaMemcpy'' 174 of Some d \<Rightarrow> Inl (ExitFailure d) | None \<Rightarrow>
        (case checkCudaError (rt MallocDest) ''cudaMalloc'' 177 of Some d \<Rightarrow> Inl (ExitFailure d) | None \<Rightarrow>
        (case (if rt KernelLaunch = cudaSuccess
               then launch (crossCorrelationKernel_block (take src_size h_src1) (take src_size h_src2)
                              kernel_size matrix_rows matrix_cols dimBlock)
                      dimGrid (replicate dest_size None)
               else Some (replicate dest_size None)) of
           None \<Rightarrow> Inl UndefinedBehaviour
         | Some d_dest \<Rightarrow>
        (case checkCudaError (rt MemcpyDest) ''cudaMemcpy'' 184 of Some d \<Rightarrow> Inl (ExitFailure d) | None \<Rightarrow>
           Inr d_dest)))))))"

text \<open>
  \<^verbatim>\<open>sharedMemoryCrossCorrelation\<close>: the same sequence with its own grid, the
  shared-memory kernel and the dynamic shared size
  \<^verbatim>\<open>2 * ((block_dim_y + 2 * (kernel_size / 2)) * matrix_cols) * sizeof(T)\<close> bytes.
\<close>

definition sharedMemoryCrossCorrelation ::
  "(api_call \<Rightarrow> cudaError) \<Rightarrow> u8 list \<Rightarrow> u8 list \<Rightarrow> nat \<Rightarrow> nat \<Rightarrow> nat \<Rightarrow> nat \<Rightarrow> nat
     \<Rightarrow> failure + u8 option list" where
  "sharedMemoryCrossCorrelation rt h_src1 h_src2 kernel_size matrix_rows matrix_cols block_dim_x block_dim_y =
     (let src_size = matrix_rows * matrix_cols * sizeof_T;
          dest_size = host_dest_size kernel_size matrix_rows matrix_cols;
          dimGrid = sharedMemoryCrossCorrelation_dimGrid kernel_size matrix_rows matrix_cols block_dim_x block_dim_y;
          dimBlock = \<lparr>x = block_dim_y, y = block_dim_x\<rparr>;
          shmem_len = 2 * ((block_dim_y + 2 * (kernel_size div 2)) * matrix_cols) * sizeof_T div sizeof_T
      in case checkCudaError (rt MallocSrc1) ''cudaMalloc'' 388 of Some d \<Rightarrow> Inl (ExitFailure d) | None \<Rightarrow>
        (case checkCudaError (rt MemcpySrc1) ''cudaMemcpy'' 391 of Some d \<Rightarrow> Inl (ExitFailure d) | None \<Rightarrow>
        (case checkCudaError (rt MallocSrc2) ''cudaMalloc'' 394 of Some d \<Rightarrow> Inl (ExitFailure d) | None \<Rightarrow>
        (case checkCudaError (rt MemcpySrc2) ''cudaMemcpy'' 397 of Some d \<Rightarrow> Inl (ExitFailure d) | None \<Rightarrow>
        (case checkCudaError (rt MallocDest) ''cudaMalloc'' 400 of Some d \<Rightarrow> Inl (ExitFailure d) | None \<Rightarrow>
        (case (if rt KernelLaunch = cudaSuccess
               then launch (sharedMemoryCrossCorrelationKernel (take src_size h_src1) (take src_size h_src2)
                              kernel_size matrix_rows matrix_cols shmem_len dimBlock)
                      dimGrid (replicate dest_size None)
               else Some (replicate dest_size None)) of
           None \<Rightarrow> Inl UndefinedBehaviour
         | Some d_dest \<Rightarrow>
        (case checkCudaError (rt MemcpyDest) ''cudaMemcpy'' 407 of Some d \<Rightarrow> Inl (ExitFailure d) | None \<Rightarrow>
           Inr d_dest)))))))"


section \<open>Loops of the direct kernel\<close>

lemma sz_sub_le [simp]: "b \<le> a \<Longrightarrow> sz_sub a b = a - b"
  by (simp add: sz_sub_def)

lemma for_loop_total:
  "(\<And>s i. i \<in> set xs \<Longrightarrow> body s i = Some (f i s)) \<Longrightarrow> for_loop xs body s = Some (fold f xs s)"
  by (induction xs arbitrary: s) simp_all

lemma fold_add_upt:
  fixes g :: "nat \<Rightarrow> u8"
  shows "fold (\<lambda>l tmp. tmp + g l) [a..<b] t = t + (\<Sum>l = a..<b. g l)"
proof (induction b)
  case 0
  then show ?case by simp
next
  case (Suc b)
  then show ?case by (cases "a \<le> b") (simp_all add: add.assoc)
qed

lemma mac_step_in_range:
  assumes "length A = rows * cols" "length B = rows * cols"
    and "j < rows" "c \<le> l" "l < cols" "shift \<le> i" "(l - c) + (i - shift) < cols" "shift \<le> sCol" "sCol - shift = c"
  shows "mac_step A B cols shift sCol i j tmp l =
           Some (tmp + A ! (j * cols + (l - c) + (i - shift)) * B ! (j * cols + l))"
proof -
  have "Suc j * cols \<le> rows * cols" using assms(3) by (simp only: mult_le_mono1 Suc_leI)
  then have *: "j * cols + cols \<le> rows * cols" by simp
  have "j * cols + (l - c) + (i - shift) < rows * cols" "j * cols + l < rows * cols"
    using * assms by linarith+
  then show ?thesis using assms by (simp add: mac_step_def rd_def)
qed


lemma window_score_sum:
  assumes len: "length A = rows * cols" "length B = rows * cols"
    and r: "r + 2 * shift < rows" and c: "c + 2 * shift < cols"
    and i: "shift \<le> i" "i + shift < cols"
  shows "window_score A B cols shift (r + shift) (c + shift) i =
           Some (\<Sum>j = r..<r + (2 * shift + 1). \<Sum>m = 0..<2 * shift + 1.
                   A ! (j * cols + m + (i - shift)) * B ! (j * cols + c + m))"
proof -
  let ?g = "\<lambda>j l. A ! (j * cols + (l - c) + (i - shift)) * B ! (j * cols + l)"
  have inner: "for_loop [c..<Suc (c + 2 * shift)] (mac_step A B cols shift (c + shift) i j) tmp
                 = Some (tmp + (\<Sum>l = c..<Suc (c + 2 * shift). ?g j l))"
    if "j \<in> set [r..<Suc (r + 2 * shift)]" for j tmp
  proof -
    have j: "j < rows" using that r by auto
    have "for_loop [c..<Suc (c + 2 * shift)] (mac_step A B cols shift (c + shift) i j) tmp
            = Some (fold (\<lambda>l tmp. tmp + ?g j l) [c..<Suc (c + 2 * shift)] tmp)"
    proof (rule for_loop_total)
      fix s l assume "l \<in> set [c..<Suc (c + 2 * shift)]"
      then have l: "c \<le> l" "l \<le> c + 2 * shift" by auto
      show "mac_step A B cols shift (c + shift) i j s l = Some (s + ?g j l)"
        using len j l c i by (intro mac_step_in_range[where rows = rows]) simp_all
    qed
    then show ?thesis by (simp only: fold_add_upt)
  qed
  have "window_score A B cols shift (r + shift) (c + shift) i
          = for_loop [r..<Suc (r + 2 * shift)]
              (\<lambda>tmp j. for_loop [c..<Suc (c + 2 * shift)] (mac_step A B cols shift (c + shift) i j) tmp) 0"
    by (simp add: window_score_def mult_2 add.assoc)
  also have "\<dots> = Some (fold (\<lambda>j tmp. tmp + (\<Sum>l = c..<Suc (c + 2 * shift). ?g j l)) [r..<Suc (r + 2 * shift)] 0)"
    by (rule for_loop_total) (rule inner)
  also have "\<dots> = Some (\<Sum>j = r..<Suc (r + 2 * shift). \<Sum>l = c..<Suc (c + 2 * shift). ?g j l)"
    by (simp only: fold_add_upt add_0)
  also have "(\<Sum>j = r..<Suc (r + 2 * shift). \<Sum>l = c..<Suc (c + 2 * shift). ?g j l)
           = (\<Sum>j = r..<r + (2 * shift + 1). \<Sum>m = 0..<2 * shift + 1.
                   A ! (j * cols + m + (i - shift)) * B ! (j * cols + c + m))"
  proof -
    have "(\<Sum>l = c..<Suc (c + 2 * shift). ?g j l)
            = (\<Sum>m = 0..<2 * shift + 1. A ! (j * cols + m + (i - shift)) * B ! (j * cols + c + m))" for j
      using sum.shift_bounds_nat_ivl[of "?g j" 0 c "2 * shift + 1"]
      by (simp add: add.commute add.left_commute add.assoc)
    then show ?thesis by simp
  qed
  finally show ?thesis .
qed


lemma argmax_fold_last_max:
  fixes sc :: "nat \<Rightarrow> u8"
  assumes "a < b"
  shows "\<exists>i. a \<le> i \<and> i < b
           \<and> fold (\<lambda>i st. if fst st \<le> sc i then (sc i, sz_sub i 1) else st) [a..<b] (0, 0) = (sc i, sz_sub i 1)
           \<and> (\<forall>i'. a \<le> i' \<and> i' < b \<longrightarrow> sc i' \<le> sc i)
           \<and> (\<forall>i'. i < i' \<and> i' < b \<longrightarrow> sc i' < sc i)"
  using assms
proof (induction b)
  case 0
  then show ?case by simp
next
  case (Suc b)
  let ?f = "\<lambda>i st. if fst st \<le> sc i then (sc i, sz_sub i 1) else st"
  show ?case
  proof (cases "a = b")
    case True
    have f: "fold ?f [a..<Suc b] (0, 0) = (sc b, sz_sub b 1)" using True by simp
    have e: "\<forall>i'. a \<le> i' \<and> i' < Suc b \<longrightarrow> sc i' \<le> sc b"
    proof (intro allI impI)
      fix i' assume "a \<le> i' \<and> i' < Suc b"
      then have "i' = b" using True by simp
      then show "sc i' \<le> sc b" by simp
    qed
    show ?thesis using True f e by (intro exI[of _ b]) auto
  next
    case False
    then have "a < b" using Suc.prems by simp
    from Suc.IH[OF this] obtain i where i: "a \<le> i" "i < b"
      "fold ?f [a..<b] (0, 0) = (sc i, sz_sub i 1)"
      "\<forall>i'. a \<le> i' \<and> i' < b \<longrightarrow> sc i' \<le> sc i"
      "\<forall>i'. i < i' \<and> i' < b \<longrightarrow> sc i' < sc i" by blast
    have step: "fold ?f [a..<Suc b] (0, 0) = ?f b (sc i, sz_sub i 1)"
      using \<open>a < b\<close> i(3) by simp
    show ?thesis
    proof (cases "sc i \<le> sc b")
      case True
      have "\<forall>i'. a \<le> i' \<and> i' < Suc b \<longrightarrow> sc i' \<le> sc b"
        using i(4) True by (auto simp: less_Suc_eq intro: order_trans)
      then show ?thesis using step True \<open>a < b\<close> by (intro exI[of _ b]) auto
    next
      case False
      then have lt: "sc b < sc i" by simp
      have "\<forall>i'. a \<le> i' \<and> i' < Suc b \<longrightarrow> sc i' \<le> sc i"
        using i(4) lt by (auto simp: less_Suc_eq)
      moreover have "\<forall>i'. i < i' \<and> i' < Suc b \<longrightarrow> sc i' < sc i"
        using i(5) lt by (auto simp: less_Suc_eq)
      ultimately show ?thesis using step False i(1,2) by (intro exI[of _ i]) auto
    qed
  qed
qed

lemma crossCorrelationKernel_fold:
  fixes A B :: "u8 list"
  assumes len: "length A = rows * cols" "length B = rows * cols"
    and k: "odd k" "3 \<le> k" "k \<le> rows" "k \<le> cols"
    and cell: "(y blockDim * y blockIdx + y threadIdx) mod 2 ^ 32 = r"
              "(x blockDim * x blockIdx + x threadIdx) mod 2 ^ 32 = c"
    and rc: "r < rows - (k - 1)" "c < cols - (k - 1)"
  shows "crossCorrelationKernel A B k rows cols blockDim blockIdx threadIdx =
           Write (r * (cols - (k - 1)) + c)
             (of_nat (snd (fold
                (\<lambda>i st. let s = (\<Sum>j = r..<r + k. \<Sum>m = 0..<k. A ! (j * cols + m + (i - k div 2))
                                                                * B ! (j * cols + c + m))
                          in if fst st \<le> s then (s, sz_sub i 1) else st)
                [k div 2..<cols - k div 2] (0, 0))))"
proof -
  define shift where "shift = k div 2"
  have k_eq: "k = 2 * shift + 1" using k(1) by (auto simp: shift_def elim: oddE)
  have shift1: "1 \<le> shift" using k(2) k_eq by simp
  have rr: "r + 2 * shift < rows" using rc k k_eq by simp
  have cc: "c + 2 * shift < cols" using rc k k_eq by simp
  let ?S = "\<lambda>i. (\<Sum>j = r..<r + k. \<Sum>m = 0..<k. A ! (j * cols + m + (i - shift)) * B ! (j * cols + c + m))"
  let ?f = "\<lambda>i st. let s = ?S i in if fst st \<le> s then (s, sz_sub i 1) else st"
  have body: "argmax_step (window_score A B cols shift (r + shift) (c + shift)) st i = Some (?f i st)"
    if "i \<in> set [shift..<cols - shift]" for st i
  proof -
    have "shift \<le> i" "i + shift < cols" using that by auto
    from window_score_sum[OF len rr cc this] show ?thesis
      by (simp add: argmax_step_def k_eq Let_def)
  qed
  have loop: "for_loop [shift..<cols - shift]
                (argmax_step (window_score A B cols shift (r + shift) (c + shift))) (0, 0)
              = Some (fold ?f [shift..<cols - shift] (0, 0))"
    by (rule for_loop_total) (rule body)
  have dims: "sz_sub k 1 = k - 1" "sz_sub cols (k - 1) = cols - (k - 1)" "sz_sub rows (k - 1) = rows - (k - 1)"
    "sz_sub cols shift = cols - shift"
    using k k_eq by simp_all
  show ?thesis
    unfolding crossCorrelationKernel_def Let_def shift_def[symmetric] cell dims
    using rc loop by (simp add: case_prod_beta Let_def)
qed

lemma read_indices_in_range:
  fixes k rows cols r c i j m :: nat
  assumes k: "odd k" "3 \<le> k" "k \<le> rows" "k \<le> cols"
    and r: "r < rows - (k - 1)" and c: "c < cols - (k - 1)"
    and i: "k div 2 \<le> i" "i < cols - k div 2" and j: "r \<le> j" "j < r + k" and m: "m < k"
  shows "j * cols + m + (i - k div 2) < rows * cols" "j * cols + c + m < rows * cols"
proof -
  obtain s where k_eq: "k = 2 * s + 1" using k(1) by (auto elim: oddE)
  have s: "k div 2 = s" using k_eq by simp
  have "Suc j * cols \<le> rows * cols" using j r k by (intro mult_le_mono1) linarith
  then have *: "j * cols + cols \<le> rows * cols" by simp
  have "m + (i - k div 2) < cols" using i m k_eq s by linarith
  then show "j * cols + m + (i - k div 2) < rows * cols" using * by linarith
  have "c + m < cols" using c m k_eq k by linarith
  then show "j * cols + c + m < rows * cols" using * by linarith
qed

section \<open>Evaluation at concrete inputs\<close>

lemma replicate_numeral: "replicate (numeral k) a = a # replicate (pred_numeral k) a"
  by (simp add: numeral_eq_Suc)

lemma list_update_Cons_numeral: "(a # as)[numeral k := v] = a # as[pred_numeral k := v]"
  by (simp add: numeral_eq_Suc)

lemma sum_upt_list: "(\<Sum>j = a..<b. f j) = sum_list (map f [a..<b])"
  by (simp add: interv_sum_list_conv_sum_set_nat)

section \<open>The value stored by the direct kernel\<close>

text \<open>
  The scan of one thread in the arithmetic of the code: the scores are sums in
  \<^verbatim>\<open>T\<close>, and the stored index is that of the last offset of maximal score, minus one.
\<close>

lemma crossCorrelationKernel_scan:
  fixes A B :: "u8 list"
  assumes len: "length A = rows * cols" "length B = rows * cols"
    and k: "odd k" "3 \<le> k" "k \<le> rows" "k \<le> cols"
    and cell: "(y blockDim * y blockIdx + y threadIdx) mod 2 ^ 32 = r"
              "(x blockDim * x blockIdx + x threadIdx) mod 2 ^ 32 = c"
    and rc: "r < rows - (k - 1)" "c < cols - (k - 1)"
  shows "\<exists>i. k div 2 \<le> i \<and> i < cols - k div 2
     \<and> (\<forall>i'. k div 2 \<le> i' \<and> i' < cols - k div 2 \<longrightarrow>
            (\<Sum>j = r..<r + k. \<Sum>m = 0..<k. A ! (j * cols + m + (i' - k div 2)) * B ! (j * cols + c + m))
          \<le> (\<Sum>j = r..<r + k. \<Sum>m = 0..<k. A ! (j * cols + m + (i - k div 2)) * B ! (j * cols + c + m)))
     \<and> (\<forall>i'. i < i' \<and> i' < cols - k div 2 \<longrightarrow>
            (\<Sum>j = r..<r + k. \<Sum>m = 0..<k. A ! (j * cols + m + (i' - k div 2)) * B ! (j * cols + c + m))
          < (\<Sum>j = r..<r + k. \<Sum>m = 0..<k. A ! (j * cols + m + (i - k div 2)) * B ! (j * cols + c + m)))
     \<and> crossCorrelationKernel A B k rows cols blockDim blockIdx threadIdx
         = Write (r * (cols - (k - 1)) + c) (of_nat (i - 1))"
proof -
  let ?S = "\<lambda>i. (\<Sum>j = r..<r + k. \<Sum>m = 0..<k. A ! (j * cols + m + (i - k div 2)) * B ! (j * cols + c + m))"
  have lt: "k div 2 < cols - k div 2" using k by (auto elim!: oddE)
  have one: "1 \<le> k div 2" using k by simp
  from argmax_fold_last_max[OF lt, of ?S] obtain i where i: "k div 2 \<le> i" "i < cols - k div 2"
    "fold (\<lambda>i st. if fst st \<le> ?S i then (?S i, sz_sub i 1) else st) [k div 2..<cols - k div 2] (0, 0) = (?S i, sz_sub i 1)"
    "\<forall>i'. k div 2 \<le> i' \<and> i' < cols - k div 2 \<longrightarrow> ?S i' \<le> ?S i"
    "\<forall>i'. i < i' \<and> i' < cols - k div 2 \<longrightarrow> ?S i' < ?S i" by blast
  have "crossCorrelationKernel A B k rows cols blockDim blockIdx threadIdx
          = Write (r * (cols - (k - 1)) + c) (of_nat (i - 1))"
    using crossCorrelationKernel_fold[OF len k cell rc] i(1,3) one
    by (simp add: Let_def)
  then show ?thesis using i(1,2,4,5) by blast
qed

text \<open>A score that fits in 8 bits is the same in \<^verbatim>\<open>T\<close> and over the naturals.\<close>

lemma word_score_of_nat:
  fixes A B :: "u8 list"
  shows "(\<Sum>j = r..<r + k. \<Sum>m = 0..<k. A ! (f j m) * B ! (g j m))
       = (of_nat (\<Sum>j = r..<r + k. \<Sum>m = 0..<k. unat (A ! (f j m)) * unat (B ! (g j m))) :: u8)"
  by (simp add: of_nat_sum)

lemma unat_word_score:
  fixes A B :: "u8 list"
  assumes "(\<Sum>j = r..<r + k. \<Sum>m = 0..<k. unat (A ! (f j m)) * unat (B ! (g j m))) < 256"
  shows "unat (\<Sum>j = r..<r + k. \<Sum>m = 0..<k. A ! (f j m) * B ! (g j m))
       = (\<Sum>j = r..<r + k. \<Sum>m = 0..<k. unat (A ! (f j m)) * unat (B ! (g j m)))"
proof -
  define N where "N = (\<Sum>j = r..<r + k. \<Sum>m = 0..<k. unat (A ! (f j m)) * unat (B ! (g j m)))"
  have "N < 256" using assms by (simp only: N_def)
  then have "unat (of_nat N :: u8) = N" by (simp add: unat_of_nat)
  then show ?thesis unfolding word_score_of_nat N_def .
qed

text \<open>
  C1 (as amended). For sources of \<open>rows * cols\<close> elements and \<open>k = 3\<close>, where
  \<open>shift = k div 2 = 1\<close>, the thread of destination cell \<open>(r, c)\<close> scans the offsets \<open>i\<close> of
  \<open>[shift, cols - shift)\<close> with the score
  \<open>\<Sum>j = r..<r + k. \<Sum>m = 0..<k. A[j, m + (i - shift)] * B[j, c + m]\<close>. When these scores,
  taken over the naturals, stay below \<open>2 ^ 8\<close>, it stores at position
  \<open>r * (cols - (k - 1)) + c\<close> the value \<open>i - shift\<close> converted to \<^verbatim>\<open>T\<close>, where \<open>i\<close> is the last
  offset of maximal score: no offset scores higher and every later offset scores
  strictly lower. The column of \<open>B\<close> in the score is \<open>c + m\<close> for the destination
  column \<open>c\<close>, which is the specification's \<open>c - shift + m\<close> for the source column
  \<open>c + shift\<close>.
\<close>

theorem direct_kernel_stores_offset_minus_shift:
  fixes A B :: "u8 list"
  assumes len: "length A = rows * cols" "length B = rows * cols"
    and k: "k = 3" "k \<le> rows" "k \<le> cols"
    and cell: "(y blockDim * y blockIdx + y threadIdx) mod 2 ^ 32 = r"
              "(x blockDim * x blockIdx + x threadIdx) mod 2 ^ 32 = c"
    and rc: "r < rows - (k - 1)" "c < cols - (k - 1)"
    and fits: "\<forall>i. k div 2 \<le> i \<and> i < cols - k div 2 \<longrightarrow>
            (\<Sum>j = r..<r + k. \<Sum>m = 0..<k.
               unat (A ! (j * cols + m + (i - k div 2))) * unat (B ! (j * cols + c + m))) < 256"
  shows "\<exists>i. k div 2 \<le> i \<and> i < cols - k div 2
     \<and> (\<forall>i'. k div 2 \<le> i' \<and> i' < cols - k div 2 \<longrightarrow>
            (\<Sum>j = r..<r + k. \<Sum>m = 0..<k.
               unat (A ! (j * cols + m + (i' - k div 2))) * unat (B ! (j * cols + c + m)))
          \<le> (\<Sum>j = r..<r + k. \<Sum>m = 0..<k.
               unat (A ! (j * cols + m + (i - k div 2))) * unat (B ! (j * cols + c + m))))
     \<and> (\<forall>i'. i < i' \<and> i' < cols - k div 2 \<longrightarrow>
            (\<Sum>j = r..<r + k. \<Sum>m = 0..<k.
               unat (A ! (j * cols + m + (i' - k div 2))) * unat (B ! (j * cols + c + m)))
          < (\<Sum>j = r..<r + k. \<Sum>m = 0..<k.
               unat (A ! (j * cols + m + (i - k div 2))) * unat (B ! (j * cols + c + m))))
     \<and> crossCorrelationKernel A B k rows cols blockDim blockIdx threadIdx
         = Write (r * (cols - (k - 1)) + c) (of_nat (i - k div 2))"
proof -
  let ?W = "\<lambda>i. (\<Sum>j = r..<r + k. \<Sum>m = 0..<k. A ! (j * cols + m + (i - k div 2)) * B ! (j * cols + c + m))"
  let ?N = "\<lambda>i. (\<Sum>j = r..<r + k. \<Sum>m = 0..<k.
               unat (A ! (j * cols + m + (i - k div 2))) * unat (B ! (j * cols + c + m)))"
  have k': "odd k" "3 \<le> k" using k by simp_all
  have shift: "k div 2 = 1" using k by simp
  from crossCorrelationKernel_scan[OF len k' k(2,3) cell rc] obtain i where
    i: "k div 2 \<le> i" "i < cols - k div 2"
    and mx: "\<forall>i'. k div 2 \<le> i' \<and> i' < cols - k div 2 \<longrightarrow> ?W i' \<le> ?W i"
    and last: "\<forall>i'. i < i' \<and> i' < cols - k div 2 \<longrightarrow> ?W i' < ?W i"
    and kern: "crossCorrelationKernel A B k rows cols blockDim blockIdx threadIdx
         = Write (r * (cols - (k - 1)) + c) (of_nat (i - 1))" by blast
  have un: "unat (?W i') = ?N i'" if "k div 2 \<le> i'" "i' < cols - k div 2" for i'
    using fits that by (intro unat_word_score) blast
  have "?N i' \<le> ?N i" if "k div 2 \<le> i'" "i' < cols - k div 2" for i'
  proof -
    have "?W i' \<le> ?W i" using mx that by blast
    then have "unat (?W i') \<le> unat (?W i)" by (simp only: word_le_nat_alt)
    then show ?thesis by (simp only: un[OF that] un[OF i])
  qed
  moreover have "?N i' < ?N i" if "i < i'" "i' < cols - k div 2" for i'
  proof -
    have ge: "k div 2 \<le> i'" using that i by simp
    have "?W i' < ?W i" using last that by blast
    then have "unat (?W i') < unat (?W i)" by (simp only: word_less_nat_alt)
    then show ?thesis by (simp only: un[OF ge that(2)] un[OF i])
  qed
  moreover have "crossCorrelationKernel A B k rows cols blockDim blockIdx threadIdx
         = Write (r * (cols - (k - 1)) + c) (of_nat (i - k div 2))"
    using kern shift by simp
  ultimately show ?thesis using i by blast
qed


theorem direct_kernel_stores_offset_minus_shift_witness:
  "\<exists>i. 1 \<le> i \<and> i < 4 \<and>
     crossCorrelationKernel [1,0,0,0,0, 0,0,0,0,0, 0,0,0,0,0] [1,1,1,1,1, 1,1,1,1,1, 1,1,1,1,1] 3 3 5
        \<lparr>x = 1, y = 1\<rparr> \<lparr>x = 0, y = 0\<rparr> \<lparr>x = 0, y = 0\<rparr> = Write 0 (of_nat (i - 1))"
proof -
  let ?A = "[1,0,0,0,0, 0,0,0,0,0, 0,0,0,0,0] :: u8 list"
  let ?B = "[1,1,1,1,1, 1,1,1,1,1, 1,1,1,1,1] :: u8 list"
  have fits: "\<forall>i. 3 div 2 \<le> i \<and> i < 5 - 3 div 2 \<longrightarrow>
            (\<Sum>j = 0..<0 + 3. \<Sum>m = 0..<3.
               unat (?A ! (j * 5 + m + (i - 3 div 2))) * unat (?B ! (j * 5 + 0 + m))) < 256"
  proof (intro allI impI)
    fix i :: nat assume "3 div 2 \<le> i \<and> i < 5 - 3 div 2"
    then have "i \<in> {1, 2, 3}" by auto
    then show "(\<Sum>j = 0..<0 + 3. \<Sum>m = 0..<3.
               unat (?A ! (j * 5 + m + (i - 3 div 2))) * unat (?B ! (j * 5 + 0 + m))) < 256"
      by (auto simp: sum_upt_list upt_conv_Cons)
  qed
  have "\<exists>i. 3 div 2 \<le> i \<and> i < 5 - 3 div 2
     \<and> (\<forall>i'. 3 div 2 \<le> i' \<and> i' < 5 - 3 div 2 \<longrightarrow>
            (\<Sum>j = 0..<0 + 3. \<Sum>m = 0..<3.
               unat (?A ! (j * 5 + m + (i' - 3 div 2))) * unat (?B ! (j * 5 + 0 + m)))
          \<le> (\<Sum>j = 0..<0 + 3. \<Sum>m = 0..<3.
               unat (?A ! (j * 5 + m + (i - 3 div 2))) * unat (?B ! (j * 5 + 0 + m))))
     \<and> (\<forall>i'. i < i' \<and> i' < 5 - 3 div 2 \<longrightarrow>
            (\<Sum>j = 0..<0 + 3. \<Sum>m = 0..<3.
               unat (?A ! (j * 5 + m + (i' - 3 div 2))) * unat (?B ! (j * 5 + 0 + m)))
          < (\<Sum>j = 0..<0 + 3. \<Sum>m = 0..<3.
               unat (?A ! (j * 5 + m + (i - 3 div 2))) * unat (?B ! (j * 5 + 0 + m))))
     \<and> crossCorrelationKernel ?A ?B 3 3 5 \<lparr>x = 1, y = 1\<rparr> \<lparr>x = 0, y = 0\<rparr> \<lparr>x = 0, y = 0\<rparr>
         = Write (0 * (5 - (3 - 1)) + 0) (of_nat (i - 3 div 2))"
    by (rule direct_kernel_stores_offset_minus_shift[OF _ _ _ _ _ _ _ _ _ fits]) simp_all
  then obtain i where "3 div 2 \<le> i" "i < 5 - 3 div 2"
    "crossCorrelationKernel ?A ?B 3 3 5 \<lparr>x = 1, y = 1\<rparr> \<lparr>x = 0, y = 0\<rparr> \<lparr>x = 0, y = 0\<rparr>
         = Write (0 * (5 - (3 - 1)) + 0) (of_nat (i - 3 div 2))" by blast
  then show ?thesis by (intro exI[of _ i]) simp
qed

text \<open>
  C1 as stated fails: with a single 1 at \<open>A[0, 0]\<close> and \<open>B\<close> all ones, in a \<open>3 \<times> 5\<close>
  problem with \<open>k = 3\<close>, the scores at the offsets 1, 2, 3 are 1, 0, 0, so the winning
  offset is 1, and the kernel stores 0.
\<close>

theorem direct_kernel_offset_itself_counterexample:
  "window_score [1,0,0,0,0, 0,0,0,0,0, 0,0,0,0,0] [1,1,1,1,1, 1,1,1,1,1, 1,1,1,1,1] 5 1 1 1 1 = Some 1
   \<and> window_score [1,0,0,0,0, 0,0,0,0,0, 0,0,0,0,0] [1,1,1,1,1, 1,1,1,1,1, 1,1,1,1,1] 5 1 1 1 2 = Some 0
   \<and> window_score [1,0,0,0,0, 0,0,0,0,0, 0,0,0,0,0] [1,1,1,1,1, 1,1,1,1,1, 1,1,1,1,1] 5 1 1 1 3 = Some 0
   \<and> crossCorrelationKernel [1,0,0,0,0, 0,0,0,0,0, 0,0,0,0,0] [1,1,1,1,1, 1,1,1,1,1, 1,1,1,1,1] 3 3 5
        \<lparr>x = 1, y = 1\<rparr> \<lparr>x = 0, y = 0\<rparr> \<lparr>x = 0, y = 0\<rparr> = Write 0 0"
  by (simp add: sz_sub_def rd_def mac_step_def window_score_def argmax_step_def crossCorrelationKernel_def
      Let_def upt_conv_Cons)

text \<open>
  Outside \<open>k = 3\<close> the stored value is still the offset minus one, not the offset
  minus \<open>shift\<close>; the same statement of the shared-memory kernel carries the note
  \<^verbatim>\<open>TODO sistemare il -1 con lo shift on axis\<close>. In a \<open>5 \<times> 7\<close> problem with \<open>k = 5\<close>,
  a single 1 at \<open>A[0, 0]\<close> and \<open>B\<close> all ones, the scores at the offsets 2, 3, 4 are
  1, 0, 0 and the kernel stores 1.
\<close>

lemma direct_kernel_kernel_size_5:
  "window_score [1,0,0,0,0,0,0, 0,0,0,0,0,0,0, 0,0,0,0,0,0,0, 0,0,0,0,0,0,0, 0,0,0,0,0,0,0]
                (replicate (5 * 7) 1) 7 2 2 2 2 = Some 1
   \<and> window_score [1,0,0,0,0,0,0, 0,0,0,0,0,0,0, 0,0,0,0,0,0,0, 0,0,0,0,0,0,0, 0,0,0,0,0,0,0]
                (replicate (5 * 7) 1) 7 2 2 2 3 = Some 0
   \<and> window_score [1,0,0,0,0,0,0, 0,0,0,0,0,0,0, 0,0,0,0,0,0,0, 0,0,0,0,0,0,0, 0,0,0,0,0,0,0]
                (replicate (5 * 7) 1) 7 2 2 2 4 = Some 0
   \<and> crossCorrelationKernel [1,0,0,0,0,0,0, 0,0,0,0,0,0,0, 0,0,0,0,0,0,0, 0,0,0,0,0,0,0, 0,0,0,0,0,0,0]
        (replicate (5 * 7) 1) 5 5 7 \<lparr>x = 1, y = 1\<rparr> \<lparr>x = 0, y = 0\<rparr> \<lparr>x = 0, y = 0\<rparr> = Write 0 1"
  by (simp add: sz_sub_def rd_def mac_step_def window_score_def argmax_step_def crossCorrelationKernel_def
      Let_def upt_conv_Cons replicate_numeral)

text \<open>
  The accumulator \<^verbatim>\<open>tmp\<close> has type \<^verbatim>\<open>T\<close>, so a score of 256 or more wraps. With
  \<open>A[0, 0] = 200\<close>, \<open>A[0, 1] = 100\<close> and \<open>B\<close> all ones in a \<open>3 \<times> 4\<close> problem, the scores
  300 and 100 of the offsets 1 and 2 become 44 and 100, and the kernel stores the
  second offset minus one.
\<close>

lemma direct_kernel_score_wraps:
  "window_score [200,100,0,0, 0,0,0,0, 0,0,0,0] (replicate (3 * 4) 1) 4 1 1 1 1 = Some 44
   \<and> window_score [200,100,0,0, 0,0,0,0, 0,0,0,0] (replicate (3 * 4) 1) 4 1 1 1 2 = Some 100
   \<and> crossCorrelationKernel [200,100,0,0, 0,0,0,0, 0,0,0,0] (replicate (3 * 4) 1) 3 3 4
        \<lparr>x = 1, y = 1\<rparr> \<lparr>x = 0, y = 0\<rparr> \<lparr>x = 0, y = 0\<rparr> = Write 0 1"
  by (simp add: sz_sub_def rd_def mac_step_def window_score_def argmax_step_def crossCorrelationKernel_def
      Let_def upt_conv_Cons replicate_numeral)

text \<open>
  For all-zero sources every score is 0, every offset replaces the one before, and
  the last offset of the scan, \<open>cols - shift - 1\<close>, wins; the kernel stores it minus
  one.
\<close>

lemma crossCorrelationKernel_all_zero:
  fixes A B :: "u8 list"
  assumes zero: "A = replicate (rows * cols) 0" "B = replicate (rows * cols) 0"
    and k: "odd k" "3 \<le> k" "k \<le> rows" "k \<le> cols"
    and cell: "(y blockDim * y blockIdx + y threadIdx) mod 2 ^ 32 = r"
              "(x blockDim * x blockIdx + x threadIdx) mod 2 ^ 32 = c"
    and rc: "r < rows - (k - 1)" "c < cols - (k - 1)"
  shows "crossCorrelationKernel A B k rows cols blockDim blockIdx threadIdx
           = Write (r * (cols - (k - 1)) + c) (of_nat (cols - k div 2 - 2))"
proof -
  define S where "S = (\<lambda>i. (\<Sum>j = r..<r + k. \<Sum>m = 0..<k.
                         A ! (j * cols + m + (i - k div 2)) * B ! (j * cols + c + m)))"
  let ?f = "\<lambda>sc i st. if fst st \<le> sc i then (sc i, sz_sub i 1) else (st :: u8 \<times> nat)"
  have len: "length A = rows * cols" "length B = rows * cols" using zero by simp_all
  have lt: "k div 2 < cols - k div 2" using k by (auto elim!: oddE)
  have one: "1 \<le> k div 2" using k by simp
  have S0: "S i = 0" if "i \<in> set [k div 2..<cols - k div 2]" for i
  proof -
    have "A ! (j * cols + m + (i - k div 2)) = 0" if "j \<in> {r..<r + k}" "m \<in> {0..<k}" for j m
      using read_indices_in_range(1)[OF k rc, of i j m] that \<open>i \<in> set _\<close> zero by simp
    then show ?thesis unfolding S_def by simp
  qed
  have kern: "crossCorrelationKernel A B k rows cols blockDim blockIdx threadIdx
          = Write (r * (cols - (k - 1)) + c) (of_nat (snd (fold (?f S) [k div 2..<cols - k div 2] (0, 0))))"
    using crossCorrelationKernel_fold[OF len k cell rc]
    unfolding S_def Let_def by simp
  have "fold (?f S) [k div 2..<cols - k div 2] (0, 0) = fold (?f (\<lambda>_. 0)) [k div 2..<cols - k div 2] (0, 0)"
  proof (rule fold_cong)
    fix i assume "i \<in> set [k div 2..<cols - k div 2]"
    then show "?f S i = ?f (\<lambda>_. 0) i" by (simp only: S0)
  qed simp_all
  moreover from argmax_fold_last_max[OF lt, of "\<lambda>_. 0"] obtain i where i: "k div 2 \<le> i" "i < cols - k div 2"
    "fold (?f (\<lambda>_. 0)) [k div 2..<cols - k div 2] (0, 0) = (0, sz_sub i 1)"
    "\<forall>i'. i < i' \<and> i' < cols - k div 2 \<longrightarrow> (0 :: u8) < 0" by blast
  moreover have "i = cols - k div 2 - 1"
  proof (rule ccontr)
    assume "i \<noteq> cols - k div 2 - 1"
    then have "i < Suc i \<and> Suc i < cols - k div 2" using i(2) by linarith
    then show False using i(4) by blast
  qed
  ultimately have "fold (?f S) [k div 2..<cols - k div 2] (0, 0) = (0, cols - k div 2 - 2)"
    using one lt by simp
  then show ?thesis using kern by simp
qed

text \<open>
  C5 (as amended). For all-zero sources and \<open>k = 3\<close>, where \<open>shift = k div 2 = 1\<close>, every
  destination cell receives the same value: the offset of the final scan iteration,
  \<open>cols - shift - 1\<close>, minus \<open>shift\<close>, converted to \<^verbatim>\<open>T\<close>.
\<close>

theorem direct_kernel_all_zero_last_offset_minus_shift:
  fixes A B :: "u8 list"
  assumes zero: "A = replicate (rows * cols) 0" "B = replicate (rows * cols) 0"
    and k: "k = 3" "k \<le> rows" "k \<le> cols"
    and cell: "(y blockDim * y blockIdx + y threadIdx) mod 2 ^ 32 = r"
              "(x blockDim * x blockIdx + x threadIdx) mod 2 ^ 32 = c"
    and rc: "r < rows - (k - 1)" "c < cols - (k - 1)"
  shows "crossCorrelationKernel A B k rows cols blockDim blockIdx threadIdx
           = Write (r * (cols - (k - 1)) + c) (of_nat (cols - k div 2 - 1 - k div 2))"
proof -
  have k': "odd k" "3 \<le> k" using k by simp_all
  have "cols - k div 2 - 1 - k div 2 = cols - k div 2 - 2" using k by simp
  then show ?thesis
    using crossCorrelationKernel_all_zero[OF zero k' k(2,3) cell rc] by simp
qed

theorem direct_kernel_all_zero_last_offset_minus_shift_witness:
  "crossCorrelationKernel (replicate (3 * 4) 0) (replicate (3 * 4) 0) 3 3 4
      \<lparr>x = 2, y = 1\<rparr> \<lparr>x = 0, y = 0\<rparr> \<lparr>x = 1, y = 0\<rparr> = Write 1 1"
  using direct_kernel_all_zero_last_offset_minus_shift[of "replicate (3 * 4) 0" 3 4 "replicate (3 * 4) 0" 3
          "\<lparr>x = 2, y = 1\<rparr>" "\<lparr>x = 0, y = 0\<rparr>" "\<lparr>x = 1, y = 0\<rparr>" 0 1]
  by simp

text \<open>
  C5 as stated fails: in an all-zero \<open>3 \<times> 6\<close> problem with \<open>k = 3\<close> the final scan
  iteration is \<open>i = 4\<close> and the stored value is 3.
\<close>

theorem direct_kernel_all_zero_counterexample:
  "crossCorrelationKernel (replicate (3 * 6) 0) (replicate (3 * 6) 0) 3 3 6
      \<lparr>x = 1, y = 1\<rparr> \<lparr>x = 0, y = 0\<rparr> \<lparr>x = 0, y = 0\<rparr> = Write 0 3
   \<and> 6 - 3 div 2 - 1 = (4 :: nat) \<and> (of_nat 4 :: u8) \<noteq> 3"
  by (simp add: sz_sub_def rd_def mac_step_def window_score_def argmax_step_def crossCorrelationKernel_def
      Let_def upt_conv_Cons replicate_numeral)

section \<open>What a destination cell depends on\<close>

text \<open>
  C6 (as amended). The value of destination cell \<open>(r, c)\<close> depends only on rows
  \<open>r, \<dots>, r + k - 1\<close> of \<open>A\<close> and on the \<open>k \<times> k\<close> window of \<open>B\<close> at rows \<open>r, \<dots>, r + k - 1\<close> and
  columns \<open>c, \<dots>, c + k - 1\<close>: two runs whose sources agree there store the same value
  in that cell. These windows reach the edges of the sources, so border pixels are
  inputs of the destination.
\<close>

theorem direct_kernel_window_noninterference:
  fixes A B A' B' :: "u8 list"
  assumes len: "length A = rows * cols" "length B = rows * cols"
               "length A' = rows * cols" "length B' = rows * cols"
    and k: "odd k" "3 \<le> k" "k \<le> rows" "k \<le> cols"
    and cell: "(y blockDim * y blockIdx + y threadIdx) mod 2 ^ 32 = r"
              "(x blockDim * x blockIdx + x threadIdx) mod 2 ^ 32 = c"
    and rc: "r < rows - (k - 1)" "c < cols - (k - 1)"
    and agreeA: "\<forall>j n. r \<le> j \<and> j < r + k \<and> n < cols \<longrightarrow> A ! (j * cols + n) = A' ! (j * cols + n)"
    and agreeB: "\<forall>j m. r \<le> j \<and> j < r + k \<and> m < k \<longrightarrow> B ! (j * cols + c + m) = B' ! (j * cols + c + m)"
  shows "crossCorrelationKernel A B k rows cols blockDim blockIdx threadIdx
           = crossCorrelationKernel A' B' k rows cols blockDim blockIdx threadIdx"
proof -
  define S where "S = (\<lambda>A B i. (\<Sum>j = r..<r + k. \<Sum>m = 0..<k.
                         (A :: u8 list) ! (j * cols + m + (i - k div 2)) * (B :: u8 list) ! (j * cols + c + m)))"
  let ?f = "\<lambda>sc i st. if fst st \<le> sc i then (sc i, sz_sub i 1) else (st :: u8 \<times> nat)"
  have kern: "crossCorrelationKernel A B k rows cols blockDim blockIdx threadIdx
          = Write (r * (cols - (k - 1)) + c) (of_nat (snd (fold (?f (S A B)) [k div 2..<cols - k div 2] (0, 0))))"
    using crossCorrelationKernel_fold[OF len(1,2) k cell rc]
    unfolding S_def Let_def by simp
  have kern': "crossCorrelationKernel A' B' k rows cols blockDim blockIdx threadIdx
          = Write (r * (cols - (k - 1)) + c) (of_nat (snd (fold (?f (S A' B')) [k div 2..<cols - k div 2] (0, 0))))"
    using crossCorrelationKernel_fold[OF len(3,4) k cell rc]
    unfolding S_def Let_def by simp
  have SS: "S A B i = S A' B' i" if "i \<in> set [k div 2..<cols - k div 2]" for i
  proof -
    have "A ! (j * cols + m + (i - k div 2)) * B ! (j * cols + c + m)
            = A' ! (j * cols + m + (i - k div 2)) * B' ! (j * cols + c + m)"
      if "j \<in> {r..<r + k}" "m \<in> {0..<k}" for j m
    proof -
      have "m + (i - k div 2) < cols" using \<open>i \<in> set _\<close> that(2) k by (auto elim!: oddE)
      then have "A ! (j * cols + (m + (i - k div 2))) = A' ! (j * cols + (m + (i - k div 2)))"
        using agreeA that(1) by simp
      moreover have "B ! (j * cols + c + m) = B' ! (j * cols + c + m)"
        using agreeB that by simp
      ultimately show ?thesis by (simp add: add.assoc)
    qed
    then show ?thesis unfolding S_def by (intro sum.cong refl) blast
  qed
  have "fold (?f (S A B)) [k div 2..<cols - k div 2] (0, 0) = fold (?f (S A' B')) [k div 2..<cols - k div 2] (0, 0)"
  proof (rule fold_cong)
    fix i assume "i \<in> set [k div 2..<cols - k div 2]"
    then show "?f (S A B) i = ?f (S A' B') i" by (simp only: SS)
  qed simp_all
  then show ?thesis using kern kern' by simp
qed

theorem direct_kernel_window_noninterference_witness:
  "crossCorrelationKernel [0,0,0,0, 0,0,0,0, 0,0,0,0, 7,7,7,7] [1,1,1,1, 1,1,1,1, 1,1,1,1, 3,3,3,3] 3 4 4
      \<lparr>x = 1, y = 1\<rparr> \<lparr>x = 0, y = 0\<rparr> \<lparr>x = 0, y = 0\<rparr>
   = crossCorrelationKernel [0,0,0,0, 0,0,0,0, 0,0,0,0, 9,9,9,9] [1,1,1,5, 1,1,1,5, 1,1,1,5, 4,4,4,4] 3 4 4
      \<lparr>x = 1, y = 1\<rparr> \<lparr>x = 0, y = 0\<rparr> \<lparr>x = 0, y = 0\<rparr>"
proof (rule direct_kernel_window_noninterference[where r = 0 and c = 0])
  show "\<forall>j n. 0 \<le> j \<and> j < 0 + 3 \<and> n < 4 \<longrightarrow>
          [0,0,0,0, 0,0,0,0, 0,0,0,0, 7,7,7,7 :: u8] ! (j * 4 + n) = [0,0,0,0, 0,0,0,0, 0,0,0,0, 9,9,9,9] ! (j * 4 + n)"
  proof (intro allI impI)
    fix j n :: nat assume "0 \<le> j \<and> j < 0 + 3 \<and> n < 4"
    then have "j \<in> {0, 1, 2}" "n \<in> {0, 1, 2, 3}" by auto
    then show "[0,0,0,0, 0,0,0,0, 0,0,0,0, 7,7,7,7 :: u8] ! (j * 4 + n) = [0,0,0,0, 0,0,0,0, 0,0,0,0, 9,9,9,9] ! (j * 4 + n)"
      by auto
  qed
  show "\<forall>j m. 0 \<le> j \<and> j < 0 + 3 \<and> m < 3 \<longrightarrow>
          [1,1,1,1, 1,1,1,1, 1,1,1,1, 3,3,3,3 :: u8] ! (j * 4 + 0 + m) = [1,1,1,5, 1,1,1,5, 1,1,1,5, 4,4,4,4] ! (j * 4 + 0 + m)"
  proof (intro allI impI)
    fix j m :: nat assume "0 \<le> j \<and> j < 0 + 3 \<and> m < 3"
    then have "j \<in> {0, 1, 2}" "m \<in> {0, 1, 2}" by auto
    then show "[1,1,1,1, 1,1,1,1, 1,1,1,1, 3,3,3,3 :: u8] ! (j * 4 + 0 + m) = [1,1,1,5, 1,1,1,5, 1,1,1,5, 4,4,4,4] ! (j * 4 + 0 + m)"
      by auto
  qed
qed simp_all

text \<open>
  C6 as stated fails. The two first sources below differ only at pixel \<open>(0, 0)\<close>, inside
  the border of width \<open>shift = 1\<close>, and agree on the interior pixels (indices 5 and 6
  of the \<open>3 \<times> 4\<close> matrix); the second source is the same. The destination matrices
  differ.
\<close>

theorem border_noninterference_counterexample:
  "[0,0,0,0, 0,0,0,0, 0,0,0,0 :: u8] ! 5 = [1,0,0,0, 0,0,0,0, 0,0,0,0] ! 5
   \<and> [0,0,0,0, 0,0,0,0, 0,0,0,0 :: u8] ! 6 = [1,0,0,0, 0,0,0,0, 0,0,0,0] ! 6
   \<and> crossCorrelation (\<lambda>c. cudaSuccess) [0,0,0,0, 0,0,0,0, 0,0,0,0] [1,1,1,1, 1,1,1,1, 1,1,1,1] 3 3 4 1 1
       = Inr [Some 1, Some 1]
   \<and> crossCorrelation (\<lambda>c. cudaSuccess) [1,0,0,0, 0,0,0,0, 0,0,0,0] [1,1,1,1, 1,1,1,1, 1,1,1,1] 3 3 4 1 1
       = Inr [Some 0, Some 0]"
  by (simp add: sz_sub_def rd_def mac_step_def window_score_def argmax_step_def crossCorrelationKernel_def
      rne_def norm_up.simps norm_down.simps f32_round_frac_def f32_of_nat_def f32_mul_def f32_div_def
      f32_ceil_def f32_trunc_def block_threads_def grid_blocks_def store_def launch_def
      crossCorrelationKernel_block_def checkCudaError_def sizeof_T_def host_dest_rows_def host_dest_cols_def
      host_dest_size_def crossCorrelation_dimGrid_def crossCorrelation_def Let_def
      upt_conv_Cons replicate_numeral list_update_Cons_numeral)

section \<open>Reads of the direct kernel\<close>

text \<open>
  C9. For sources of \<open>rows * cols\<close> elements and an odd \<open>k\<close> with \<open>3 \<le> k \<le> min rows cols\<close>,
  a thread of the direct kernel that passes the boundary guard never reads outside
  \<^verbatim>\<open>d_src1\<close> or \<^verbatim>\<open>d_src2\<close>: the thread does not fault, and every index of its read path
  is inside the buffer.
\<close>

theorem direct_kernel_reads_in_bounds:
  fixes A B :: "u8 list"
  assumes len: "length A = rows * cols" "length B = rows * cols"
    and k: "odd k" "3 \<le> k" "k \<le> rows" "k \<le> cols"
    and cell: "(y blockDim * y blockIdx + y threadIdx) mod 2 ^ 32 = r"
              "(x blockDim * x blockIdx + x threadIdx) mod 2 ^ 32 = c"
    and rc: "r < rows - (k - 1)" "c < cols - (k - 1)"
  shows "crossCorrelationKernel A B k rows cols blockDim blockIdx threadIdx \<noteq> Fault
    \<and> (\<forall>i j m. k div 2 \<le> i \<and> i < cols - k div 2 \<and> r \<le> j \<and> j < r + k \<and> m < k \<longrightarrow>
          rd A (j * cols + m + (i - k div 2)) \<noteq> None \<and> rd B (j * cols + (c + m)) \<noteq> None)"
proof -
  have "crossCorrelationKernel A B k rows cols blockDim blockIdx threadIdx \<noteq> Fault"
    using crossCorrelationKernel_fold[OF len k cell rc] by simp
  moreover have "rd A (j * cols + m + (i - k div 2)) \<noteq> None \<and> rd B (j * cols + (c + m)) \<noteq> None"
    if "k div 2 \<le> i \<and> i < cols - k div 2 \<and> r \<le> j \<and> j < r + k \<and> m < k" for i j m
    using read_indices_in_range[OF k rc, of i j m] that len by (simp add: rd_def add.assoc)
  ultimately show ?thesis by blast
qed

theorem direct_kernel_reads_in_bounds_witness:
  "crossCorrelationKernel [1,2,3,4, 5,6,7,8, 9,10,11,12] [1,0,1,0, 0,1,0,1, 1,1,0,0] 3 3 4
      \<lparr>x = 2, y = 1\<rparr> \<lparr>x = 0, y = 0\<rparr> \<lparr>x = 1, y = 0\<rparr> \<noteq> Fault"
  using direct_kernel_reads_in_bounds[of "[1,2,3,4, 5,6,7,8, 9,10,11,12]" 3 4
          "[1,0,1,0, 0,1,0,1, 1,1,0,0]" 3 "\<lparr>x = 2, y = 1\<rparr>" "\<lparr>x = 0, y = 0\<rparr>" "\<lparr>x = 1, y = 0\<rparr>" 0 1]
  by simp

section \<open>Rounding in the host arithmetic\<close>

lemma norm_up_spec:
  "norm_up p d q = (p', d') \<Longrightarrow> 0 < d \<Longrightarrow>
     0 < d' \<and> p' * d = p * d' \<and> (0 < p \<longrightarrow> 8388608 * q \<le> p')"
proof (induction p d q rule: norm_up.induct)
  case (1 p d q)
  show ?case
  proof (cases "0 < p \<and> p < 8388608 * q")
    case True
    then have "norm_up p d q = norm_up (2 * p) (2 * d) q" by (subst norm_up.simps) simp
    then have "norm_up (2 * p) (2 * d) q = (p', d')" using "1.prems"(1) by simp
    from "1.IH"[OF True this] "1.prems"(2) show ?thesis by simp
  next
    case False
    then have "norm_up p d q = (p, d)" by (subst norm_up.simps) auto
    then have "(p, d) = (p', d')" using "1.prems"(1) by simp
    then show ?thesis using False "1.prems"(2) by auto
  qed
qed

lemma norm_down_small: "p < 16777216 * q \<Longrightarrow> norm_down p q s = (q, s)"
  by (subst norm_down.simps) simp

lemma rne_mult [simp]: "0 < d \<Longrightarrow> rne (n * d) d = n"
  by (simp add: rne_def)

lemma rne_one [simp]: "rne n (Suc 0) = n"
  using rne_mult[of 1 n] by simp

lemma rne_bounds:
  assumes "0 < d"
  shows "2 * (rne n d * d) \<le> 2 * n + d" and "2 * n \<le> 2 * (rne n d * d) + d"
proof -
  define qq rr where "qq = n div d" and "rr = n mod d"
  have n: "n = qq * d + rr" and rr: "rr < d" using assms by (simp_all add: qq_def rr_def)
  consider (lo) "2 * rr < d" "rne n d = qq" | (hi) "d < 2 * rr" "rne n d = qq + 1"
    | (tie) "2 * rr = d" "rne n d = qq \<or> rne n d = qq + 1"
    unfolding rne_def Let_def qq_def[symmetric] rr_def[symmetric] by (cases "2 * rr < d"; cases "d < 2 * rr") auto
  then have "2 * (rne n d * d) \<le> 2 * n + d \<and> 2 * n \<le> 2 * (rne n d * d) + d"
  proof cases
    case lo
    then show ?thesis using n by (simp add: algebra_simps)
  next
    case hi
    then show ?thesis using n rr by (simp add: algebra_simps)
  next
    case tie
    then show ?thesis using n by (auto simp add: algebra_simps)
  qed
  then show "2 * (rne n d * d) \<le> 2 * n + d" and "2 * n \<le> 2 * (rne n d * d) + d" by simp_all
qed

text \<open>
  Three roundings of binary32: \<open>2 ^ 24 + 1\<close> lies halfway between two values and goes to
  the even significand, \<open>2 ^ 24 + 3\<close> goes to \<open>2 ^ 24 + 4\<close>, and \<open>1 / 3\<close> is
  \<open>11184811 / 2 ^ 25\<close> (the bit pattern \<^verbatim>\<open>0x3EAAAAAB\<close>).
\<close>

lemma f32_examples:
  "f32_of_nat 16777217 = (16777216, 1)"
  "f32_of_nat 16777219 = (16777220, 1)"
  "f32_div (f32_of_nat 1) (f32_of_nat 3) = (11184811, 33554432)"
  by (simp_all add: rne_def norm_up.simps norm_down.simps f32_round_frac_def f32_of_nat_def f32_div_def)

text \<open>Integers below \<open>2 ^ 24\<close> are binary32 values.\<close>

lemma f32_of_nat_exact:
  assumes "n < 2 ^ 24"
  shows "\<exists>d. 0 < d \<and> f32_of_nat n = (n * d, d)"
proof (cases "n < 2 ^ 23")
  case True
  obtain p' d where nu: "norm_up n 1 1 = (p', d)" by (cases "norm_up n 1 1")
  from norm_up_spec[OF nu] have "0 < d" "p' = n * d" by simp_all
  then have "f32_of_nat n = (n * d, d)"
    using True nu by (simp add: f32_of_nat_def f32_round_frac_def)
  then show ?thesis using \<open>0 < d\<close> by (intro exI[of _ d]) simp
next
  case False
  then have "f32_of_nat n = (n, 1)"
    using assms by (simp add: f32_of_nat_def f32_round_frac_def norm_down_small)
  then show ?thesis by (intro exI[of _ 1]) simp
qed

lemma div_between:
  fixes n :: nat
  assumes "k * S \<le> n" "n < (k + 1) * S"
  shows "n div S = k"
proof -
  have "0 < S" using assms by (cases S) auto
  then show ?thesis using assms
    by (metis Suc_eq_plus1 div_nat_eqI mult.commute)
qed

lemma ceil_div_exact: "0 < b \<Longrightarrow> (k * b + b - 1) div b = (k :: nat)"
  by (rule div_between) (auto simp: algebra_simps)

lemma ceil_div_inexact:
  fixes b :: nat
  assumes "0 < r" "r < b"
  shows "(k * b + r + b - 1) div b = k + 1"
  using assms by (intro div_between) (auto simp: algebra_simps)

lemma f32_ceil_round_frac:
  assumes q: "0 < q" and b: "0 < b" and eq: "p * b = a * q" and a: "a < 2 ^ 24"
  shows "f32_ceil (f32_round_frac p q) = (a + b - 1) div b"
proof (cases "p < 2 ^ 23 * q")
  case small: True
  obtain p' S where nu: "norm_up p 1 q = (p', S)" by (cases "norm_up p 1 q")
  from norm_up_spec[OF nu] have S: "0 < S" and p': "p' = p * S"
    and ge0: "0 < p \<longrightarrow> 2 ^ 23 * q \<le> p * S" by auto
  define m where "m = rne (p * S) q"
  have ceil: "f32_ceil (f32_round_frac p q) = (m + S - 1) div S"
    using small nu p' by (simp add: f32_round_frac_def f32_ceil_def m_def)
  define kq r where "kq = a div b" and "r = a mod b"
  have a_eq: "a = kq * b + r" and r: "r < b" using b by (simp_all add: kq_def r_def)
  show ?thesis
  proof (cases "r = 0")
    case True
    then have "p * b = (kq * q) * b" using eq a_eq by (simp add: algebra_simps)
    then have "p = kq * q" using b by simp
    then have "p * S = (kq * S) * q" by (simp add: algebra_simps)
    then have "m = kq * S" using q unfolding m_def by (simp only: rne_mult)
    then have "(m + S - 1) div S = kq" using ceil_div_exact[OF S, of kq] by simp
    moreover have "(a + b - 1) div b = kq" using True a_eq ceil_div_exact[OF b, of kq] by simp
    ultimately show ?thesis using ceil by simp
  next
    case False
    then have r0: "0 < r" by simp
    then have "0 < a" using a_eq by simp
    then have "0 < p" using eq q b by (cases p) auto
    have ge: "2 ^ 23 * q \<le> p * S" using ge0 \<open>0 < p\<close> by simp
    have "(2 ^ 23 * b) * q = 2 ^ 23 * q * b" by simp
    also have "\<dots> \<le> p * S * b" using ge by (rule mult_le_mono1)
    also have "\<dots> = (a * S) * q" using eq by (simp add: algebra_simps)
    finally have "2 ^ 23 * b \<le> a * S" using q by simp
    also have "a * S < 2 ^ 24 * S" using a S by simp
    finally have bS: "b < 2 * S" by simp
    define X Y Z where "X = kq * b * (q * S)" and "Y = r * (q * S)" and "Z = q * b"
    have Nb: "p * S * b = X + Y" using eq a_eq by (simp add: X_def Y_def algebra_simps)
    have Y2: "2 * Y = (2 * r * S) * q" by (simp add: Y_def algebra_simps)
    have Zq: "Z = b * q" by (simp add: Z_def)
    have lower: "kq * S < m"
    proof (rule ccontr)
      assume "\<not> kq * S < m"
      then have "m * q \<le> kq * S * q" by (intro mult_le_mono1) simp
      moreover have "2 * (p * S) \<le> 2 * (m * q) + q" unfolding m_def by (rule rne_bounds) fact
      ultimately have "2 * (p * S) \<le> 2 * (kq * S * q) + q" by linarith
      then have i1: "2 * (p * S) * b \<le> (2 * (kq * S * q) + q) * b" by (rule mult_le_mono1)
      have e1: "2 * (p * S) * b = 2 * (X + Y)" using Nb by simp
      have e2: "(2 * (kq * S * q) + q) * b = 2 * X + Z" by (simp add: X_def Z_def algebra_simps)
      from i1 have "2 * (X + Y) \<le> 2 * X + Z" unfolding e1 e2 .
      then have "2 * Y \<le> Z" by simp
      then have "(2 * r * S) * q \<le> b * q" using Y2 Zq by simp
      then have "2 * r * S \<le> b" using q by simp
      moreover have "2 * S \<le> 2 * r * S" using r0 by simp
      ultimately show False using bS by linarith
    qed
    have upper: "m < (kq + 1) * S"
    proof (rule ccontr)
      assume "\<not> m < (kq + 1) * S"
      then have "(kq + 1) * S * q \<le> m * q" by (intro mult_le_mono1) simp
      moreover have "2 * (m * q) \<le> 2 * (p * S) + q" unfolding m_def by (rule rne_bounds) fact
      ultimately have "2 * ((kq + 1) * S * q) \<le> 2 * (p * S) + q" by linarith
      then have i1: "2 * ((kq + 1) * S * q) * b \<le> (2 * (p * S) + q) * b" by (rule mult_le_mono1)
      have "(2 * (p * S) + q) * b = 2 * (p * S * b) + q * b" by (simp add: algebra_simps)
      then have e1: "(2 * (p * S) + q) * b = 2 * (X + Y) + Z" using Nb by (simp add: Z_def)
      have e2: "2 * ((kq + 1) * S * q) * b = 2 * X + (2 * S * b) * q" by (simp add: X_def algebra_simps)
      from i1 have "2 * X + (2 * S * b) * q \<le> 2 * (X + Y) + Z" unfolding e1 e2 .
      then have "(2 * S * b) * q \<le> 2 * Y + Z" by simp
      then have "(2 * S * b) * q \<le> (2 * r * S + b) * q" using Y2 Zq by (simp add: algebra_simps)
      then have le: "2 * S * b \<le> 2 * r * S + b" using q by simp
      obtain e where e: "b = r + 1 + e" using r by (metis Suc_eq_plus1 less_iff_Suc_add add_Suc_right add.commute)
      have "2 * S * b = 2 * r * S + (2 * S + 2 * S * e)" by (simp add: e algebra_simps)
      moreover have "e \<le> 2 * S * e" using S by simp
      ultimately have "2 * S \<le> r + 1" using le e by linarith
      then show False using bS r by linarith
    qed
    have "(m + S - 1) div S = kq + 1"
      using lower upper S by (intro div_between) (auto simp: algebra_simps)
    moreover have "(a + b - 1) div b = kq + 1"
      using ceil_div_inexact[OF r0 r, of kq] a_eq by simp
    ultimately show ?thesis using ceil by simp
  qed
next
  case large: False
  then have i: "2 ^ 23 * q * b \<le> p * b" by (intro mult_le_mono1) simp
  have "(2 ^ 23 * b) * q = 2 ^ 23 * q * b" by simp
  also have "\<dots> \<le> p * b" by (rule i)
  also have "\<dots> = a * q" by (rule eq)
  finally have "2 ^ 23 * b \<le> a" using q by simp
  then have b1: "b = 1" using a b by simp
  then have p: "p = a * q" using eq by simp
  then have "p < 2 ^ 24 * q" using a q by simp
  then have "f32_round_frac p q = (a, 1)"
    using large q p by (simp add: f32_round_frac_def norm_down_small)
  then show ?thesis using b1 by (simp add: f32_ceil_def)
qed

lemma f32_ceil_div_exact:
  assumes "a < 2 ^ 24" "0 < b" "b < 2 ^ 24"
  shows "f32_ceil (f32_div (f32_of_nat a) (f32_of_nat b)) = (a + b - 1) div b"
proof -
  obtain d where d: "0 < d" "f32_of_nat a = (a * d, d)" using f32_of_nat_exact[OF assms(1)] by blast
  obtain e where e: "0 < e" "f32_of_nat b = (b * e, e)" using f32_of_nat_exact[OF assms(3)] by blast
  have "f32_div (f32_of_nat a) (f32_of_nat b) = f32_round_frac (a * d * e) (d * (b * e))"
    by (simp add: f32_div_def d e)
  moreover have "f32_ceil (f32_round_frac (a * d * e) (d * (b * e))) = (a + b - 1) div b"
    using d e assms by (intro f32_ceil_round_frac) (simp_all add: algebra_simps)
  ultimately show ?thesis by simp
qed

section \<open>Launch geometry\<close>

text \<open>
  C7 (as amended). For valid inputs whose extents and block extents are below \<open>2 ^ 24\<close>,
  the grid of the plain orchestrator and of the two timed orchestrators is
  \<open>\<lceil>dest_cols / block_dim_y\<rceil> \<times> \<lceil>dest_rows / block_dim_x\<rceil>\<close> with
  \<open>dest_cols = cols - (k - 1)\<close> and \<open>dest_rows = rows - (k - 1)\<close>, and the grid of the
  shared-memory orchestrator is \<open>\<lceil>cols / block_dim_y\<rceil> \<times> \<lceil>rows / block_dim_x\<rceil>\<close>: it
  covers the source extents. \<open>(a + b - 1) div b\<close> is \<open>\<lceil>a / b\<rceil>\<close> on the naturals.
\<close>

theorem orchestrator_dimGrid:
  assumes k: "odd k" "3 \<le> k" "k \<le> rows" "k \<le> cols"
    and small: "rows < 2 ^ 24" "cols < 2 ^ 24"
    and bx: "0 < block_dim_x" "block_dim_x < 2 ^ 24"
    and "by": "0 < block_dim_y" "block_dim_y < 2 ^ 24"
  shows "crossCorrelation_dimGrid k rows cols block_dim_x block_dim_y
           = \<lparr>x = (cols - (k - 1) + block_dim_y - 1) div block_dim_y,
              y = (rows - (k - 1) + block_dim_x - 1) div block_dim_x\<rparr>
       \<and> crossCorrelationTimeWithAllocation_dimGrid k rows cols block_dim_x block_dim_y
           = \<lparr>x = (cols - (k - 1) + block_dim_y - 1) div block_dim_y,
              y = (rows - (k - 1) + block_dim_x - 1) div block_dim_x\<rparr>
       \<and> crossCorrelationTimeWithoutAllocation_dimGrid k rows cols block_dim_x block_dim_y
           = \<lparr>x = (cols - (k - 1) + block_dim_y - 1) div block_dim_y,
              y = (rows - (k - 1) + block_dim_x - 1) div block_dim_x\<rparr>
       \<and> sharedMemoryCrossCorrelation_dimGrid k rows cols block_dim_x block_dim_y
           = \<lparr>x = (cols + block_dim_y - 1) div block_dim_y,
              y = (rows + block_dim_x - 1) div block_dim_x\<rparr>"
proof -
  have sub: "sz_sub k 1 = k - 1" "sz_sub rows (k - 1) = rows - (k - 1)" "sz_sub cols (k - 1) = cols - (k - 1)"
    using k by simp_all
  have lt: "rows - (k - 1) < 2 ^ 24" "cols - (k - 1) < 2 ^ 24" using small by simp_all
  show ?thesis
    unfolding crossCorrelation_dimGrid_def crossCorrelationTimeWithAllocation_dimGrid_def
      crossCorrelationTimeWithoutAllocation_dimGrid_def sharedMemoryCrossCorrelation_dimGrid_def
      host_dest_rows_def host_dest_cols_def sub
    using f32_ceil_div_exact[OF lt(1) bx] f32_ceil_div_exact[OF lt(2) "by"]
      f32_ceil_div_exact[OF small(1) bx] f32_ceil_div_exact[OF small(2) "by"]
    by simp
qed

theorem orchestrator_dimGrid_witness:
  "crossCorrelation_dimGrid 3 32 32 8 8 = \<lparr>x = 4, y = 4\<rparr>
   \<and> crossCorrelationTimeWithAllocation_dimGrid 3 32 32 8 8 = \<lparr>x = 4, y = 4\<rparr>
   \<and> crossCorrelationTimeWithoutAllocation_dimGrid 3 32 32 8 8 = \<lparr>x = 4, y = 4\<rparr>
   \<and> sharedMemoryCrossCorrelation_dimGrid 3 32 32 8 8 = \<lparr>x = 4, y = 4\<rparr>"
  using orchestrator_dimGrid[of 3 32 32 8 8] by simp

text \<open>
  C7 as stated fails for the shared-memory orchestrator: for a \<open>3 \<times> 10\<close> problem with
  \<open>k = 3\<close> and \<open>1 \<times> 1\<close> blocks its grid is \<open>10 \<times> 3\<close>, while
  \<open>\<lceil>dest_cols / 1\<rceil> \<times> \<lceil>dest_rows / 1\<rceil>\<close> is \<open>8 \<times> 1\<close>.
\<close>

theorem shared_memory_dimGrid_counterexample:
  "sharedMemoryCrossCorrelation_dimGrid 3 3 10 1 1 = \<lparr>x = 10, y = 3\<rparr>
   \<and> (10 - (3 - 1) + 1 - 1) div 1 = (8 :: nat) \<and> (3 - (3 - 1) + 1 - 1) div 1 = (1 :: nat)"
  by (simp add: sz_sub_def rne_def norm_up.simps norm_down.simps f32_round_frac_def f32_of_nat_def
      f32_div_def f32_ceil_def sharedMemoryCrossCorrelation_dimGrid_def)

section \<open>Launches of the direct kernel\<close>

text \<open>
  A thread of the direct kernel computes from its block and thread indices only the
  cell coordinates \<open>dRow\<close> and \<open>dCol\<close>, so its result is that of the thread of a
  \<open>1 \<times> 1\<close> block at the same cell, and of the thread at the coordinates reduced modulo
  \<open>2 ^ 32\<close>. Two launches whose grids both cover the destination produce the same
  stores, one value per position, and so the same buffer; below \<open>2 ^ 24\<close> the grid of
  \<^verbatim>\<open>crossCorrelation\<close> covers the destination for every block shape.
\<close>

lemma crossCorrelationKernel_cell:
  "crossCorrelationKernel A B k rows cols blockDim blockIdx threadIdx =
     crossCorrelationKernel A B k rows cols \<lparr>x = 1, y = 1\<rparr>
       \<lparr>x = x blockDim * x blockIdx + x threadIdx, y = y blockDim * y blockIdx + y threadIdx\<rparr>
       \<lparr>x = 0, y = 0\<rparr>"
  by (simp add: crossCorrelationKernel_def)

lemma crossCorrelationKernel_wrap:
  "crossCorrelationKernel A B k rows cols \<lparr>x = 1, y = 1\<rparr> \<lparr>x = c, y = r\<rparr> \<lparr>x = 0, y = 0\<rparr> =
     crossCorrelationKernel A B k rows cols \<lparr>x = 1, y = 1\<rparr> \<lparr>x = c mod 2 ^ 32, y = r mod 2 ^ 32\<rparr> \<lparr>x = 0, y = 0\<rparr>"
  by (simp add: crossCorrelationKernel_def)

text \<open>
  With \<^verbatim>\<open>blockDim.x = 1024\<close> and \<^verbatim>\<open>blockIdx.x = 4194304\<close> the product is \<open>2 ^ 32\<close>, so the
  thread has \<open>dCol = 0\<close> and stores to cell \<open>(0, 0)\<close>.
\<close>

lemma crossCorrelationKernel_coordinate_wraps:
  "crossCorrelationKernel (replicate (3 * 3) 0) (replicate (3 * 3) 0) 3 3 3
      \<lparr>x = 1024, y = 1\<rparr> \<lparr>x = 4194304, y = 0\<rparr> \<lparr>x = 0, y = 0\<rparr> = Write 0 0"
  by (simp add: sz_sub_def rd_def mac_step_def window_score_def argmax_step_def crossCorrelationKernel_def
      Let_def upt_conv_Cons replicate_numeral)

lemma crossCorrelationKernel_at_cases:
  "(\<not> (r mod 2 ^ 32 < sz_sub rows (sz_sub k 1) \<and> c mod 2 ^ 32 < sz_sub cols (sz_sub k 1))
      \<and> crossCorrelationKernel A B k rows cols \<lparr>x = 1, y = 1\<rparr> \<lparr>x = c, y = r\<rparr> \<lparr>x = 0, y = 0\<rparr> = NoWrite)
   \<or> (r mod 2 ^ 32 < sz_sub rows (sz_sub k 1) \<and> c mod 2 ^ 32 < sz_sub cols (sz_sub k 1)
      \<and> (crossCorrelationKernel A B k rows cols \<lparr>x = 1, y = 1\<rparr> \<lparr>x = c, y = r\<rparr> \<lparr>x = 0, y = 0\<rparr> = Fault
         \<or> (\<exists>v. crossCorrelationKernel A B k rows cols \<lparr>x = 1, y = 1\<rparr> \<lparr>x = c, y = r\<rparr> \<lparr>x = 0, y = 0\<rparr>
                 = Write (r mod 2 ^ 32 * sz_sub cols (sz_sub k 1) + c mod 2 ^ 32) v)))"
  by (auto simp: crossCorrelationKernel_def Let_def split: option.splits prod.splits)

lemma store_simps:
  "store buf NoWrite = Some buf"
  "store buf (Write p v) = (if p < length buf then Some (buf[p := Some v]) else None)"
  "store buf Fault = None"
  by (simp_all add: store_def)

lemma for_loop_store:
  assumes "\<And>p v. Write p v \<in> set R \<Longrightarrow> v = g p"
  shows "for_loop R store buf =
           (if Fault \<in> set R \<or> (\<exists>p v. Write p v \<in> set R \<and> length buf \<le> p) then None
            else Some (map (\<lambda>p. if (\<exists>v. Write p v \<in> set R) then Some (g p) else buf ! p) [0..<length buf]))"
  using assms
proof (induction R arbitrary: buf)
  case Nil
  then show ?case by (simp add: map_nth)
next
  case (Cons a R)
  have IH: "for_loop R store b =
           (if Fault \<in> set R \<or> (\<exists>p v. Write p v \<in> set R \<and> length b \<le> p) then None
            else Some (map (\<lambda>p. if (\<exists>v. Write p v \<in> set R) then Some (g p) else b ! p) [0..<length b]))" for b
    using Cons.IH Cons.prems by simp
  show ?case
  proof (cases a)
    case NoWrite
    then show ?thesis using IH[of buf] by (simp add: store_simps)
  next
    case (Write p v)
    then have v: "v = g p" using Cons.prems by simp
    show ?thesis
    proof (cases "p < length buf")
      case True
      have "map (\<lambda>q. if (\<exists>v. Write q v \<in> set R) then Some (g q) else buf[p := Some v] ! q) [0..<length buf]
          = map (\<lambda>q. if (\<exists>v. Write q v \<in> set (a # R)) then Some (g q) else buf ! q) [0..<length buf]"
        using Write v True by (auto simp: nth_list_update)
      then show ?thesis using IH[of "buf[p := Some v]"] Write True by (auto simp: store_simps)
    next
      case False
      then show ?thesis using Write by (auto simp: store_simps)
    qed
  next
    case Fault
    then show ?thesis by (simp add: store_simps)
  qed
qed

lemma for_loop_store_cong:
  assumes same: "set R - {NoWrite} = set R' - {NoWrite}"
    and cons: "\<And>p v v'. Write p v \<in> set R \<Longrightarrow> Write p v' \<in> set R \<Longrightarrow> v = v'"
  shows "for_loop R store buf = for_loop R' store buf"
proof -
  define g where "g = (\<lambda>p. SOME v. Write p v \<in> set R)"
  have mem: "Write p v \<in> set R \<longleftrightarrow> Write p v \<in> set R'" for p v using same by blast
  have flt: "Fault \<in> set R \<longleftrightarrow> Fault \<in> set R'" using same by blast
  have gR: "v = g p" if "Write p v \<in> set R" for p v
    unfolding g_def using that cons by (metis (mono_tags, lifting) someI)
  then have gR': "v = g p" if "Write p v \<in> set R'" for p v using that mem by blast
  have e1: "for_loop R store buf =
           (if Fault \<in> set R \<or> (\<exists>p v. Write p v \<in> set R \<and> length buf \<le> p) then None
            else Some (map (\<lambda>p. if (\<exists>v. Write p v \<in> set R) then Some (g p) else buf ! p) [0..<length buf]))"
    by (rule for_loop_store) (rule gR)
  have e2: "for_loop R' store buf =
           (if Fault \<in> set R' \<or> (\<exists>p v. Write p v \<in> set R' \<and> length buf \<le> p) then None
            else Some (map (\<lambda>p. if (\<exists>v. Write p v \<in> set R') then Some (g p) else buf ! p) [0..<length buf]))"
    by (rule for_loop_store) (rule gR')
  show ?thesis unfolding e1 e2 by (simp add: mem flt)
qed


lemma index_split:
  fixes b :: nat
  shows "{b * q + t | q t. q < g \<and> t < b} = {0..<g * b}"
proof (intro equalityI subsetI)
  fix n assume "n \<in> {b * q + t | q t. q < g \<and> t < b}"
  then obtain q t where n: "n = b * q + t" "q < g" "t < b" by blast
  then have "b * q + t < b * q + b" by simp
  also have "\<dots> = b * Suc q" by simp
  also have "\<dots> \<le> b * g" using n(2) by (intro mult_le_mono2) simp
  finally show "n \<in> {0..<g * b}" using n(1) by (simp add: mult.commute)
next
  fix n assume n: "n \<in> {0..<g * b}"
  then have b: "0 < b" by (cases b) auto
  have "n div b < g" using n b by (simp add: less_mult_imp_div_less)
  moreover have "n mod b < b" using b by simp
  moreover have "n = b * (n div b) + n mod b" by simp
  ultimately show "n \<in> {b * q + t | q t. q < g \<and> t < b}" by blast
qed

lemma set_block_threads:
  "set (block_threads blockDim) = {\<lparr>x = tx, y = ty\<rparr> | tx ty. tx < x blockDim \<and> ty < y blockDim}"
  by (auto simp: block_threads_def)

lemma set_grid_blocks:
  "set (grid_blocks gridDim) = {\<lparr>x = bx, y = by\<rparr> | bx by. bx < x gridDim \<and> by < y gridDim}"
  by (auto simp: grid_blocks_def)

lemma launch_results_set:
  "set (concat (map (crossCorrelationKernel_block A B k rows cols blockDim) (grid_blocks gridDim))) =
     {crossCorrelationKernel A B k rows cols \<lparr>x = 1, y = 1\<rparr> \<lparr>x = c, y = r\<rparr> \<lparr>x = 0, y = 0\<rparr> | r c.
        r < y gridDim * y blockDim \<and> c < x gridDim * x blockDim}"
  (is "?L = ?R")
proof (intro equalityI subsetI)
  fix res assume "res \<in> ?L"
  then obtain bx "by" tx ty where i: "bx < x gridDim" "by < y gridDim" "tx < x blockDim" "ty < y blockDim"
    and res: "res = crossCorrelationKernel A B k rows cols blockDim \<lparr>x = bx, y = by\<rparr> \<lparr>x = tx, y = ty\<rparr>"
    by (auto simp: crossCorrelationKernel_block_def set_block_threads set_grid_blocks)
  have "y blockDim * by + ty \<in> {y blockDim * q + t | q t. q < y gridDim \<and> t < y blockDim}" using i by blast
  then have r: "y blockDim * by + ty < y gridDim * y blockDim" unfolding index_split by simp
  have "x blockDim * bx + tx \<in> {x blockDim * q + t | q t. q < x gridDim \<and> t < x blockDim}" using i by blast
  then have c: "x blockDim * bx + tx < x gridDim * x blockDim" unfolding index_split by simp
  show "res \<in> ?R" unfolding res using r c
    by (subst crossCorrelationKernel_cell) (simp, blast)
next
  fix res assume "res \<in> ?R"
  then obtain r c where rc: "r < y gridDim * y blockDim" "c < x gridDim * x blockDim"
    and res: "res = crossCorrelationKernel A B k rows cols \<lparr>x = 1, y = 1\<rparr> \<lparr>x = c, y = r\<rparr> \<lparr>x = 0, y = 0\<rparr>"
    by blast
  from rc(1) have "r \<in> {y blockDim * q + t | q t. q < y gridDim \<and> t < y blockDim}"
    unfolding index_split by simp
  then obtain "by" ty where r: "r = y blockDim * by + ty" "by < y gridDim" "ty < y blockDim" by blast
  from rc(2) have "c \<in> {x blockDim * q + t | q t. q < x gridDim \<and> t < x blockDim}"
    unfolding index_split by simp
  then obtain bx tx where c: "c = x blockDim * bx + tx" "bx < x gridDim" "tx < x blockDim" by blast
  have "res = crossCorrelationKernel A B k rows cols blockDim \<lparr>x = bx, y = by\<rparr> \<lparr>x = tx, y = ty\<rparr>"
    unfolding res r c by (subst (2) crossCorrelationKernel_cell) simp
  moreover have "\<lparr>x = bx, y = by\<rparr> \<in> set (grid_blocks gridDim)" using r c by (auto simp: set_grid_blocks)
  moreover have "\<lparr>x = tx, y = ty\<rparr> \<in> set (block_threads blockDim)" using r c by (auto simp: set_block_threads)
  ultimately show "res \<in> ?L" by (auto simp: crossCorrelationKernel_block_def)
qed

lemma launch_results_covering:
  assumes "sz_sub rows (sz_sub k 1) \<le> y gridDim * y blockDim"
    and "sz_sub cols (sz_sub k 1) \<le> x gridDim * x blockDim"
  shows "set (concat (map (crossCorrelationKernel_block A B k rows cols blockDim) (grid_blocks gridDim))) - {NoWrite} =
     {crossCorrelationKernel A B k rows cols \<lparr>x = 1, y = 1\<rparr> \<lparr>x = c, y = r\<rparr> \<lparr>x = 0, y = 0\<rparr> | r c.
        r < sz_sub rows (sz_sub k 1) \<and> c < sz_sub cols (sz_sub k 1)} - {NoWrite}"
  (is "?L - _ = ?R - _")
proof (intro equalityI subsetI)
  fix res assume "res \<in> ?L - {NoWrite}"
  then obtain r c where
    res: "res = crossCorrelationKernel A B k rows cols \<lparr>x = 1, y = 1\<rparr> \<lparr>x = c, y = r\<rparr> \<lparr>x = 0, y = 0\<rparr>"
    and nw: "res \<noteq> NoWrite" unfolding launch_results_set by blast
  then have "r mod 2 ^ 32 < sz_sub rows (sz_sub k 1) \<and> c mod 2 ^ 32 < sz_sub cols (sz_sub k 1)"
    using crossCorrelationKernel_at_cases[of r rows k c cols A B] by auto
  moreover have "res = crossCorrelationKernel A B k rows cols \<lparr>x = 1, y = 1\<rparr>
                         \<lparr>x = c mod 2 ^ 32, y = r mod 2 ^ 32\<rparr> \<lparr>x = 0, y = 0\<rparr>"
    unfolding res by (rule crossCorrelationKernel_wrap)
  ultimately show "res \<in> ?R - {NoWrite}" using nw by blast
next
  fix res assume "res \<in> ?R - {NoWrite}"
  then obtain r c where rc: "r < sz_sub rows (sz_sub k 1)" "c < sz_sub cols (sz_sub k 1)"
    and res: "res = crossCorrelationKernel A B k rows cols \<lparr>x = 1, y = 1\<rparr> \<lparr>x = c, y = r\<rparr> \<lparr>x = 0, y = 0\<rparr>"
    and nw: "res \<noteq> NoWrite" by blast
  have "r < y gridDim * y blockDim" "c < x gridDim * x blockDim" using rc assms by simp_all
  then show "res \<in> ?L - {NoWrite}" unfolding launch_results_set using res nw by blast
qed

lemma launch_results_consistent:
  assumes "Write p v \<in> set (concat (map (crossCorrelationKernel_block A B k rows cols blockDim) (grid_blocks gridDim)))"
    and "Write p v' \<in> set (concat (map (crossCorrelationKernel_block A B k rows cols blockDim) (grid_blocks gridDim)))"
  shows "v = v'"
proof -
  let ?dc = "sz_sub cols (sz_sub k 1)"
  let ?K = "\<lambda>r c. crossCorrelationKernel A B k rows cols \<lparr>x = 1, y = 1\<rparr> \<lparr>x = c, y = r\<rparr> \<lparr>x = 0, y = 0\<rparr>"
  from assms obtain r c r' c' where 1: "Write p v = ?K r c" and 2: "Write p v' = ?K r' c'"
    unfolding launch_results_set by blast
  from 1 crossCorrelationKernel_at_cases[of r rows k c cols A B]
  have a: "c mod 2 ^ 32 < ?dc" "p = r mod 2 ^ 32 * ?dc + c mod 2 ^ 32"
    by (metis thread_result.distinct(1,5) thread_result.inject)+
  from 2 crossCorrelationKernel_at_cases[of r' rows k c' cols A B]
  have b: "c' mod 2 ^ 32 < ?dc" "p = r' mod 2 ^ 32 * ?dc + c' mod 2 ^ 32"
    by (metis thread_result.distinct(1,5) thread_result.inject)+
  have "p mod ?dc = c mod 2 ^ 32" "p div ?dc = r mod 2 ^ 32" unfolding a(2) using a(1) by simp_all
  moreover have "p mod ?dc = c' mod 2 ^ 32" "p div ?dc = r' mod 2 ^ 32" unfolding b(2) using b(1) by simp_all
  ultimately have "c mod 2 ^ 32 = c' mod 2 ^ 32" "r mod 2 ^ 32 = r' mod 2 ^ 32" by simp_all
  then have "?K r c = ?K r' c'"
    using crossCorrelationKernel_wrap[of A B k rows cols c r] crossCorrelationKernel_wrap[of A B k rows cols c' r']
    by simp
  with 1 2 have "Write p v = Write p v'" by metis
  then show ?thesis by simp
qed

lemma launch_covering_grids:
  assumes "sz_sub rows (sz_sub k 1) \<le> y gridDim * y blockDim"
    and "sz_sub cols (sz_sub k 1) \<le> x gridDim * x blockDim"
    and "sz_sub rows (sz_sub k 1) \<le> y gridDim' * y blockDim'"
    and "sz_sub cols (sz_sub k 1) \<le> x gridDim' * x blockDim'"
  shows "launch (crossCorrelationKernel_block A B k rows cols blockDim) gridDim d_dest
       = launch (crossCorrelationKernel_block A B k rows cols blockDim') gridDim' d_dest"
  unfolding launch_def
proof (rule for_loop_store_cong)
  show "set (concat (map (crossCorrelationKernel_block A B k rows cols blockDim) (grid_blocks gridDim))) - {NoWrite}
      = set (concat (map (crossCorrelationKernel_block A B k rows cols blockDim') (grid_blocks gridDim'))) - {NoWrite}"
    unfolding launch_results_covering[OF assms(1,2)] launch_results_covering[OF assms(3,4)] ..
qed (rule launch_results_consistent)

lemma ceil_div_covers:
  fixes a b :: nat
  assumes "0 < b"
  shows "a \<le> (a + b - 1) div b * b"
proof -
  have "a + b - 1 = (a + b - 1) div b * b + (a + b - 1) mod b" by simp
  moreover have "(a + b - 1) mod b \<le> b - 1" using assms by (simp add: less_Suc_eq_le[symmetric])
  ultimately show ?thesis using assms by linarith
qed

lemma crossCorrelation_block_shape_below_2_24:
  assumes k: "1 \<le> k" "k \<le> rows" "k \<le> cols"
    and small: "rows < 2 ^ 24" "cols < 2 ^ 24"
    and b1: "0 < block_dim_x" "block_dim_x < 2 ^ 24" "0 < block_dim_y" "block_dim_y < 2 ^ 24"
    and b2: "0 < block_dim_x'" "block_dim_x' < 2 ^ 24" "0 < block_dim_y'" "block_dim_y' < 2 ^ 24"
  shows "crossCorrelation rt h_src1 h_src2 k rows cols block_dim_x block_dim_y
       = crossCorrelation rt h_src1 h_src2 k rows cols block_dim_x' block_dim_y'"
proof -
  have sub: "sz_sub k 1 = k - 1" "sz_sub rows (k - 1) = rows - (k - 1)" "sz_sub cols (k - 1) = cols - (k - 1)"
    using k by simp_all
  have lt: "rows - (k - 1) < 2 ^ 24" "cols - (k - 1) < 2 ^ 24" using small by simp_all
  have grid: "crossCorrelation_dimGrid k rows cols bx by
           = \<lparr>x = (cols - (k - 1) + by - 1) div by, y = (rows - (k - 1) + bx - 1) div bx\<rparr>"
    if "0 < bx" "bx < 2 ^ 24" "0 < by" "by < 2 ^ 24" for bx "by"
    unfolding crossCorrelation_dimGrid_def host_dest_rows_def host_dest_cols_def sub
    using f32_ceil_div_exact[OF lt(1) that(1,2)] f32_ceil_div_exact[OF lt(2) that(3,4)] by simp
  have cover: "sz_sub rows (sz_sub k 1) \<le> y (crossCorrelation_dimGrid k rows cols bx by) * y \<lparr>x = by, y = bx\<rparr>"
      "sz_sub cols (sz_sub k 1) \<le> x (crossCorrelation_dimGrid k rows cols bx by) * x \<lparr>x = by, y = bx\<rparr>"
    if "0 < bx" "bx < 2 ^ 24" "0 < by" "by < 2 ^ 24" for bx "by"
    unfolding grid[OF that] sub
    using ceil_div_covers[OF that(1), of "rows - (k - 1)"] ceil_div_covers[OF that(3), of "cols - (k - 1)"]
    by simp_all
  have L: "launch (crossCorrelationKernel_block A B k rows cols \<lparr>x = block_dim_y, y = block_dim_x\<rparr>)
          (crossCorrelation_dimGrid k rows cols block_dim_x block_dim_y) d_dest
      = launch (crossCorrelationKernel_block A B k rows cols \<lparr>x = block_dim_y', y = block_dim_x'\<rparr>)
          (crossCorrelation_dimGrid k rows cols block_dim_x' block_dim_y') d_dest" for A B d_dest
    by (rule launch_covering_grids[OF cover[OF b1] cover[OF b2]])
  show ?thesis unfolding crossCorrelation_def Let_def L by (rule refl)
qed

text \<open>
  C10. The destination computed by \<^verbatim>\<open>crossCorrelation\<close> should not depend on the block
  shape. The grid extent is \<^verbatim>\<open>ceil(dest_cols / block_dim_y)\<close> in single precision: for
  \<open>cols = 25165830\<close>, \<open>k = 3\<close> and \<open>block_dim_y = 3\<close> the quotient \<open>25165828 / 3\<close> rounds to
  \<open>8388609\<close>, so the grid has \<open>8388609 * 3 = 25165827\<close> threads per row for \<open>25165828\<close>
  destination columns and the last column is never computed, while with
  \<open>block_dim_y = 1\<close> every column is; the buffer copied back holds all \<open>25165828\<close> cells.
\<close>

theorem dimGrid_rounds_down:
  "crossCorrelation_dimGrid 3 3 25165830 1 3 = \<lparr>x = 8388609, y = 1\<rparr>
   \<and> 8388609 * 3 < 25165830 - (3 - 1 :: nat)
   \<and> crossCorrelation_dimGrid 3 3 25165830 1 1 = \<lparr>x = 25165828, y = 1\<rparr>
   \<and> host_dest_size 3 3 25165830 = 25165828"
  by (simp add: sz_sub_def rne_def norm_up.simps norm_down.simps f32_round_frac_def f32_of_nat_def
      f32_mul_def f32_div_def f32_ceil_def f32_trunc_def sizeof_T_def host_dest_rows_def host_dest_cols_def
      host_dest_size_def crossCorrelation_dimGrid_def)

section \<open>Size of the destination buffer\<close>

text \<open>
  A destination of fewer than \<open>2 ^ 24\<close> cells gets a buffer of exactly that many
  elements: the \<^verbatim>\<open>float\<close> product is then exact.
\<close>

lemma f32_round_frac_exact:
  assumes "0 < q" "n < 2 ^ 24"
  shows "\<exists>d. 0 < d \<and> f32_round_frac (n * q) q = (n * d, d)"
proof (cases "n * q < 2 ^ 23 * q")
  case True
  obtain p' d where nu: "norm_up (n * q) 1 q = (p', d)" by (cases "norm_up (n * q) 1 q")
  from norm_up_spec[OF nu] have d: "0 < d" and p': "p' = (n * d) * q" by (simp_all add: algebra_simps)
  have "rne p' q = n * d" unfolding p' using assms(1) by (rule rne_mult)
  then have "f32_round_frac (n * q) q = (n * d, d)"
    using True nu by (simp add: f32_round_frac_def)
  then show ?thesis using d by (intro exI[of _ d]) simp
next
  case False
  have "n * q < 2 ^ 24 * q" using assms by simp
  then have "norm_down (n * q) q 1 = (q, 1)" by (simp add: norm_down_small)
  then have "f32_round_frac (n * q) q = (n, 1)"
    using False assms(1) by (simp add: f32_round_frac_def)
  then show ?thesis by (intro exI[of _ 1]) simp
qed

lemma host_dest_size_exact:
  assumes k: "1 \<le> k" "k \<le> rows" "k \<le> cols"
    and small: "(rows - (k - 1)) * (cols - (k - 1)) < 2 ^ 24"
  shows "host_dest_size k rows cols = (rows - (k - 1)) * (cols - (k - 1))"
proof -
  define dr dc where "dr = rows - (k - 1)" and "dc = cols - (k - 1)"
  have pos: "0 < dr" "0 < dc" using k by (simp_all add: dr_def dc_def)
  have small': "dr * dc < 2 ^ 24" using small by (simp add: dr_def dc_def)
  have "dr \<le> dr * dc" "dc \<le> dr * dc" using pos by simp_all
  then have lt: "dr < 2 ^ 24" "dc < 2 ^ 24" using small' by linarith+
  obtain d1 where d1: "0 < d1" "f32_of_nat dr = (dr * d1, d1)" using f32_of_nat_exact[OF lt(1)] by blast
  obtain d2 where d2: "0 < d2" "f32_of_nat dc = (dc * d2, d2)" using f32_of_nat_exact[OF lt(2)] by blast
  obtain d3 where d3: "0 < d3" "f32_of_nat (Suc 0) = (d3, d3)" using f32_of_nat_exact[of 1] by auto
  have "f32_mul (f32_of_nat dr) (f32_of_nat dc) = f32_round_frac ((dr * dc) * (d1 * d2)) (d1 * d2)"
    by (simp add: f32_mul_def d1 d2 algebra_simps)
  moreover obtain d4 where d4: "0 < d4" "f32_round_frac ((dr * dc) * (d1 * d2)) (d1 * d2) = (dr * dc * d4, d4)"
    using f32_round_frac_exact[of "d1 * d2" "dr * dc"] d1(1) d2(1) small' by auto
  ultimately have m1: "f32_mul (f32_of_nat dr) (f32_of_nat dc) = (dr * dc * d4, d4)" by simp
  have "f32_mul (dr * dc * d4, d4) (f32_of_nat 1) = f32_round_frac ((dr * dc) * (d4 * d3)) (d4 * d3)"
    by (simp add: f32_mul_def d3 algebra_simps)
  moreover obtain d5 where d5: "0 < d5" "f32_round_frac ((dr * dc) * (d4 * d3)) (d4 * d3) = (dr * dc * d5, d5)"
    using f32_round_frac_exact[of "d4 * d3" "dr * dc"] d4(1) d3(1) small' by auto
  ultimately have "f32_trunc (f32_mul (f32_mul (f32_of_nat dr) (f32_of_nat dc)) (f32_of_nat 1)) = dr * dc"
    using m1 d5(1) by (simp add: f32_trunc_def)
  moreover have "sz_sub k 1 = k - 1" "sz_sub rows (k - 1) = rows - (k - 1)" "sz_sub cols (k - 1) = cols - (k - 1)"
    using k by simp_all
  ultimately show ?thesis
    by (simp add: host_dest_size_def host_dest_rows_def host_dest_cols_def sizeof_T_def dr_def dc_def)
qed

text \<open>
  C3. The kernel addresses a destination of \<open>rows - (k - 1)\<close> rows and \<open>cols - (k - 1)\<close>
  columns. The host computes the size of the buffer as a product of \<^verbatim>\<open>float\<close> values:
  for a \<open>4099 \<times> 4099\<close> problem with \<open>k = 3\<close> the destination has \<open>4097 * 4097 = 16785409\<close>
  cells and the buffer has \<open>16785408\<close>.
\<close>

theorem host_dest_size_rounds:
  "host_dest_size 3 4099 4099 = 16785408
   \<and> (4099 - (3 - 1)) * (4099 - (3 - 1)) = (16785409 :: nat)"
  by (simp add: sz_sub_def rne_def norm_up.simps norm_down.simps f32_round_frac_def f32_of_nat_def
      f32_mul_def f32_trunc_def sizeof_T_def host_dest_rows_def host_dest_cols_def host_dest_size_def)

section \<open>Error checks of the orchestrator\<close>

text \<open>
  C8 (as amended). In \<^verbatim>\<open>crossCorrelation\<close> each of the three \<^verbatim>\<open>cudaMalloc\<close> calls and of
  the three \<^verbatim>\<open>cudaMemcpy\<close> calls is checked: the first of them that fails ends the
  process with a diagnostic that names the call, carries its status and its line, and
  no result is returned. A result is returned only when all six succeeded. The
  statuses of the kernel launch, of \<^verbatim>\<open>cudaDeviceSynchronize\<close> and of the three \<^verbatim>\<open>cudaFree\<close>
  calls are not examined.
\<close>

theorem crossCorrelation_checked_calls:
  fixes rt :: "api_call \<Rightarrow> cudaError" and h_src1 h_src2 :: "u8 list"
    and kernel_size matrix_rows matrix_cols block_dim_x block_dim_y :: nat
  defines "res \<equiv> crossCorrelation rt h_src1 h_src2 kernel_size matrix_rows matrix_cols block_dim_x block_dim_y"
  shows "(rt MallocSrc1 \<noteq> cudaSuccess \<longrightarrow>
            res = Inl (ExitFailure \<lparr>func = ''cudaMalloc'', error = rt MallocSrc1, line = 165\<rparr>))
       \<and> (rt MallocSrc1 = cudaSuccess \<and> rt MemcpySrc1 \<noteq> cudaSuccess \<longrightarrow>
            res = Inl (ExitFailure \<lparr>func = ''cudaMemcpy'', error = rt MemcpySrc1, line = 168\<rparr>))
       \<and> (rt MallocSrc1 = cudaSuccess \<and> rt MemcpySrc1 = cudaSuccess \<and> rt MallocSrc2 \<noteq> cudaSuccess \<longrightarrow>
            res = Inl (ExitFailure \<lparr>func = ''cudaMalloc'', error = rt MallocSrc2, line = 171\<rparr>))
       \<and> (rt MallocSrc1 = cudaSuccess \<and> rt MemcpySrc1 = cudaSuccess \<and> rt MallocSrc2 = cudaSuccess
            \<and> rt MemcpySrc2 \<noteq> cudaSuccess \<longrightarrow>
            res = Inl (ExitFailure \<lparr>func = ''cudaMemcpy'', error = rt MemcpySrc2, line = 174\<rparr>))
       \<and> (rt MallocSrc1 = cudaSuccess \<and> rt MemcpySrc1 = cudaSuccess \<and> rt MallocSrc2 = cudaSuccess
            \<and> rt MemcpySrc2 = cudaSuccess \<and> rt MallocDest \<noteq> cudaSuccess \<longrightarrow>
            res = Inl (ExitFailure \<lparr>func = ''cudaMalloc'', error = rt MallocDest, line = 177\<rparr>))
       \<and> (rt MallocSrc1 = cudaSuccess \<and> rt MemcpySrc1 = cudaSuccess \<and> rt MallocSrc2 = cudaSuccess
            \<and> rt MemcpySrc2 = cudaSuccess \<and> rt MallocDest = cudaSuccess \<and> rt MemcpyDest \<noteq> cudaSuccess \<longrightarrow>
            res = Inl (ExitFailure \<lparr>func = ''cudaMemcpy'', error = rt MemcpyDest, line = 184\<rparr>)
            \<or> res = Inl UndefinedBehaviour)
       \<and> ((\<exists>h_dest. res = Inr h_dest) \<longrightarrow>
            rt MallocSrc1 = cudaSuccess \<and> rt MemcpySrc1 = cudaSuccess \<and> rt MallocSrc2 = cudaSuccess
            \<and> rt MemcpySrc2 = cudaSuccess \<and> rt MallocDest = cudaSuccess \<and> rt MemcpyDest = cudaSuccess)"
  unfolding res_def crossCorrelation_def checkCudaError_def Let_def
  by (auto split: option.splits)

theorem crossCorrelation_checked_calls_witness:
  "crossCorrelation (\<lambda>c. if c = MemcpySrc2 then cudaErrorCode 2 else cudaSuccess)
       [0,0,0,0, 0,0,0,0, 0,0,0,0] [1,1,1,1, 1,1,1,1, 1,1,1,1] 3 3 4 1 1
     = Inl (ExitFailure \<lparr>func = ''cudaMemcpy'', error = cudaErrorCode 2, line = 174\<rparr>)"
  using crossCorrelation_checked_calls[of "\<lambda>c. if c = MemcpySrc2 then cudaErrorCode 2 else cudaSuccess"
          "[0,0,0,0, 0,0,0,0, 0,0,0,0]" "[1,1,1,1, 1,1,1,1, 1,1,1,1]" 3 3 4 1 1]
  by simp

text \<open>
  C8 as stated fails: when the launch fails the orchestrator returns normally with
  the uninitialised buffer, and when \<^verbatim>\<open>cudaDeviceSynchronize\<close> and the \<^verbatim>\<open>cudaFree\<close> calls
  fail it returns normally with the result.
\<close>

theorem unchecked_calls_counterexample:
  "crossCorrelation (\<lambda>c. if c = KernelLaunch then cudaErrorCode 9 else cudaSuccess)
       [0,0,0,0, 0,0,0,0, 0,0,0,0] [1,1,1,1, 1,1,1,1, 1,1,1,1] 3 3 4 1 1
     = Inr [None, None]
   \<and> crossCorrelation (\<lambda>c. if c \<in> {DeviceSynchronize, FreeSrc1, FreeSrc2, FreeDest} then cudaErrorCode 4 else cudaSuccess)
       [0,0,0,0, 0,0,0,0, 0,0,0,0] [1,1,1,1, 1,1,1,1, 1,1,1,1] 3 3 4 1 1
     = Inr [Some 1, Some 1]"
  by (simp add: sz_sub_def rd_def mac_step_def window_score_def argmax_step_def crossCorrelationKernel_def
      rne_def norm_up.simps norm_down.simps f32_round_frac_def f32_of_nat_def f32_mul_def f32_div_def
      f32_ceil_def f32_trunc_def block_threads_def grid_blocks_def store_def launch_def
      crossCorrelationKernel_block_def checkCudaError_def sizeof_T_def host_dest_rows_def host_dest_cols_def
      host_dest_size_def crossCorrelation_dimGrid_def crossCorrelation_def Let_def
      upt_conv_Cons replicate_numeral list_update_Cons_numeral)

section \<open>The dump of the shared arrays\<close>

text \<open>
  The shared array of a launch has \<open>2 * (block_dim_y + 2 * (k div 2)) * cols\<close> elements,
  and \<^verbatim>\<open>blockDim.y\<close> is \<open>block_dim_x\<close>: when the grid has a block (1, 0) and
  \<open>block_dim_x > block_dim_y\<close>, the dump of \<^verbatim>\<open>d_shmem2\<close> reads past the array. For a
  \<open>4 \<times> 4\<close> problem with \<open>k = 3\<close>, \<open>block_dim_x = 4\<close> and \<open>block_dim_y = 3\<close> the grid is
  \<open>2 \<times> 1\<close>, block (0, 0) stores the four destination cells, and the first thread of
  block (1, 0) reads element 40 of an array of 40.
\<close>

lemma shared_memory_dump_reads_past_array:
  "sharedMemoryCrossCorrelation_dimGrid 3 4 4 4 3 = \<lparr>x = 2, y = 1\<rparr>
   \<and> sharedMemoryCrossCorrelationKernel (replicate (4 * 4) 0) (replicate (4 * 4) 0) 3 4 4 40
         \<lparr>x = 3, y = 4\<rparr> \<lparr>x = 0, y = 0\<rparr>
       = [NoWrite, NoWrite, NoWrite, NoWrite, Write 0 1, Write 1 1, NoWrite, Write 2 1, Write 3 1,
          NoWrite, NoWrite, NoWrite]
   \<and> shmem_dump (replicate 40 None) 24 3 4 4 = None
   \<and> sharedMemoryCrossCorrelation (\<lambda>c. cudaSuccess) (replicate (4 * 4) 0) (replicate (4 * 4) 0) 3 4 4 4 3
       = Inl UndefinedBehaviour"
  by (simp add: sz_sub_def rd_def mac_step_def window_score_def argmax_step_def crossCorrelationKernel_def
      rne_def norm_up.simps norm_down.simps f32_round_frac_def f32_of_nat_def f32_mul_def f32_div_def
      f32_add_def f32_ceil_def f32_trunc_def block_threads_def grid_blocks_def store_def launch_def
      crossCorrelationKernel_block_def stage_cols_def stage_ops_def stage_copy_def stage_block_def
      shmem_dump_def shmem_mac_step_def shmem_window_score_def sharedMemoryCrossCorrelationKernel_search_def
      sharedMemoryCrossCorrelationKernel_def checkCudaError_def sizeof_T_def host_dest_rows_def
      host_dest_cols_def host_dest_size_def crossCorrelation_dimGrid_def
      sharedMemoryCrossCorrelation_dimGrid_def crossCorrelation_def sharedMemoryCrossCorrelation_def Let_def
      upt_conv_Cons replicate_numeral list_update_Cons_numeral)

section \<open>The two kernels compared\<close>

text \<open>
  C2. The two kernels should produce the same destination. On the \<open>5 \<times> 4\<close> sources
  below with \<open>k = 3\<close>, \<open>block_dim_x = 5\<close> and \<open>block_dim_y = 4\<close>, one block stages all five
  rows and every access is defined; the shared-memory kernel sums each score over
  the \<^verbatim>\<open>blockDim.y\<close> rows of the block instead of the \<open>k\<close> rows of the window, and the
  destinations differ.
\<close>

theorem kernels_differ:
  "crossCorrelation (\<lambda>c. cudaSuccess)
       [0,0,0,0, 0,0,0,0, 0,0,0,0, 0,0,0,0, 1,1,1,0] [0,0,0,0, 0,0,0,0, 0,0,0,0, 0,0,0,0, 1,1,1,0] 3 5 4 5 4
     = Inr [Some 1, Some 1, Some 1, Some 1, Some 0, Some 1]
   \<and> sharedMemoryCrossCorrelation (\<lambda>c. cudaSuccess)
       [0,0,0,0, 0,0,0,0, 0,0,0,0, 0,0,0,0, 1,1,1,0] [0,0,0,0, 0,0,0,0, 0,0,0,0, 0,0,0,0, 1,1,1,0] 3 5 4 5 4
     = Inr [Some 0, Some 1, Some 0, Some 1, Some 0, Some 1]"
  by (simp add: sz_sub_def rd_def mac_step_def window_score_def argmax_step_def crossCorrelationKernel_def
      rne_def norm_up.simps norm_down.simps f32_round_frac_def f32_of_nat_def f32_mul_def f32_div_def
      f32_add_def f32_ceil_def f32_trunc_def block_threads_def grid_blocks_def store_def launch_def
      crossCorrelationKernel_block_def stage_cols_def stage_ops_def stage_copy_def stage_block_def
      shmem_mac_step_def shmem_window_score_def sharedMemoryCrossCorrelationKernel_search_def
      sharedMemoryCrossCorrelationKernel_def checkCudaError_def sizeof_T_def host_dest_rows_def
      host_dest_cols_def host_dest_size_def crossCorrelation_dimGrid_def
      sharedMemoryCrossCorrelation_dimGrid_def crossCorrelation_def sharedMemoryCrossCorrelation_def Let_def
      upt_conv_Cons replicate_numeral list_update_Cons_numeral)

text \<open>
  C4. Every destination cell should be written exactly once by either kernel. The
  guard of the shared-memory kernel, \<^verbatim>\<open>sRow <= matrix_dest_rows && sCol <= matrix_dest_cols\<close>
  together with \<^verbatim>\<open>sRow >= shift_on_axis && sCol >= shift_on_axis\<close>, admits the destination
  rows \<open>0, \<dots>, dest_rows - shift\<close> and columns \<open>0, \<dots>, dest_cols - shift\<close> only: for
  \<open>k = 5\<close> on a \<open>7 \<times> 6\<close> problem it writes two of the six cells, where the direct
  kernel writes all six.
\<close>

theorem shared_memory_kernel_skips_cells:
  "sharedMemoryCrossCorrelation (\<lambda>c. cudaSuccess) (replicate (7 * 6) 0) (replicate (7 * 6) 0) 5 7 6 7 6
     = Inr [Some 2, None, Some 2, None, None, None]
   \<and> crossCorrelation (\<lambda>c. cudaSuccess) (replicate (7 * 6) 0) (replicate (7 * 6) 0) 5 7 6 7 6
     = Inr [Some 2, Some 2, Some 2, Some 2, Some 2, Some 2]"
  by (simp add: sz_sub_def rd_def mac_step_def window_score_def argmax_step_def crossCorrelationKernel_def
      rne_def norm_up.simps norm_down.simps f32_round_frac_def f32_of_nat_def f32_mul_def f32_div_def
      f32_add_def f32_ceil_def f32_trunc_def block_threads_def grid_blocks_def store_def launch_def
      crossCorrelationKernel_block_def stage_cols_def stage_ops_def stage_copy_def stage_block_def
      shmem_mac_step_def shmem_window_score_def sharedMemoryCrossCorrelationKernel_search_def
      sharedMemoryCrossCorrelationKernel_def checkCudaError_def sizeof_T_def host_dest_rows_def
      host_dest_cols_def host_dest_size_def crossCorrelation_dimGrid_def
      sharedMemoryCrossCorrelation_dimGrid_def crossCorrelation_def sharedMemoryCrossCorrelation_def Let_def
      upt_conv_Cons replicate_numeral list_update_Cons_numeral)

end
